theory Spec2Isabelle
  imports Complex_Main "HOL-Library.Word"
begin

section \<open>Data model of the morph editor\<close>

text \<open>
  The program is \<^verbatim>\<open>src/main.py\<close>. Its morph engine lives in three methods of
  \<^verbatim>\<open>MorphEditor\<close>: \<^verbatim>\<open>update_morph\<close>, \<^verbatim>\<open>interpolate_image\<close> and \<^verbatim>\<open>save_gif\<close>;
  \<^verbatim>\<open>save_template\<close> and \<^verbatim>\<open>load_template\<close> persist the point list.

  Coordinates are Python floats and \<^verbatim>\<open>numpy.float32\<close> values; they are modelled by the
  real numbers they stand for (rounding is not modelled). Pixels are \<^verbatim>\<open>uint8\<close>
  channels and are modelled as 8-bit words, so that the array arithmetic of the
  compositing step wraps as \<^verbatim>\<open>numpy\<close> does.
\<close>

type_synonym point = "real \<times> real"

text \<open>\<^verbatim>\<open>@dataclass class MorphPoint\<close>: a pair of points in normalized coordinates.\<close>

record MorphPoint =
  source :: point
  target :: point

type_synonym uint8 = "8 word"

text \<open>An image is a \<^verbatim>\<open>numpy\<close> array of shape (height, width, 3): rows of pixels.\<close>

type_synonym pixel = "uint8 \<times> uint8 \<times> uint8"
type_synonym raster = "pixel list list"

text \<open>The 2 x 3 matrix returned by \<^verbatim>\<open>cv2.getAffineTransform\<close>.\<close>

type_synonym matrix = "(real \<times> real \<times> real) \<times> (real \<times> real \<times> real)"

datatype py_exception =
  AttributeError | ZeroDivisionError | IndexError | ValueError
  | FileNotFoundError | QhullError | CvError

text \<open>
  The state of a \<^verbatim>\<open>MorphEditor\<close> that the engine reads and writes.
  \<^verbatim>\<open>target_canvas.points\<close> is the same list object as \<^verbatim>\<open>source_canvas.points\<close>
  (assigned in \<^verbatim>\<open>__init__\<close>, mutated in place ever after), so one field holds it.
  A field that is \<^verbatim>\<open>None\<close> in Python is \<open>None\<close> here.
\<close>

record editor =
  source_image :: "raster option"
  target_image :: "raster option"
  points :: "MorphPoint list"
  source_canvas_image :: "raster option"
  target_canvas_image :: "raster option"

section \<open>The libraries the program calls\<close>

text \<open>
  \<^verbatim>\<open>scipy.spatial.Delaunay\<close>, \<^verbatim>\<open>cv2.getAffineTransform\<close>, \<^verbatim>\<open>cv2.warpAffine\<close> and
  \<^verbatim>\<open>cv2.fillConvexPoly\<close> are not part of the program. They are taken as parameters:
  a record of functions, each of which may raise. What the interface fixes is only
  what the calls in the program fix:
  \<^item> \<open>Delaunay\<close> maps an (N, 2) array of points to its \<^verbatim>\<open>simplices\<close>, a list of index
    lists;
  \<^item> \<open>getAffineTransform\<close> maps two point arrays to a matrix;
  \<^item> \<open>warpAffine\<close> maps an image, a matrix and a size (width, height) to the colour of
    every pixel (row, column) of an image of that size;
  \<^item> \<open>fillConvexPoly\<close> maps the shape (height, width) of the image it draws on and an
    integer polygon to the set of pixels (row, column) that it paints.
\<close>

record libs =
  Delaunay :: "point list \<Rightarrow> py_exception + nat list list"
  getAffineTransform :: "point list \<Rightarrow> point list \<Rightarrow> py_exception + matrix"
  warpAffine :: "raster \<Rightarrow> matrix \<Rightarrow> nat \<times> nat \<Rightarrow> py_exception + (nat \<Rightarrow> nat \<Rightarrow> pixel)"
  fillConvexPoly :: "nat \<times> nat \<Rightarrow> (int \<times> int) list \<Rightarrow> py_exception + (nat \<Rightarrow> nat \<Rightarrow> bool)"

section \<open>Array operations\<close>

text \<open>\<^verbatim>\<open>image.shape[:2]\<close>: (height, width).\<close>

definition shape2 :: "raster \<Rightarrow> nat \<times> nat" where
  "shape2 img = (length img, (case img of [] \<Rightarrow> 0 | r # _ \<Rightarrow> length r))"

definition zeros_like :: "raster \<Rightarrow> raster" where
  "zeros_like img = map (map (\<lambda>_. (0, 0, 0))) img"

definition px1 :: "(uint8 \<Rightarrow> uint8) \<Rightarrow> pixel \<Rightarrow> pixel" where
  "px1 f p = (case p of (r, g, b) \<Rightarrow> (f r, f g, f b))"

definition px2 :: "(uint8 \<Rightarrow> uint8 \<Rightarrow> uint8) \<Rightarrow> pixel \<Rightarrow> pixel \<Rightarrow> pixel" where
  "px2 f p q = (case p of (r, g, b) \<Rightarrow> (case q of (r', g', b') \<Rightarrow> (f r r', f g g', f b b')))"

text \<open>\<^verbatim>\<open>c - a\<close> for a Python integer \<open>c\<close> and a \<^verbatim>\<open>uint8\<close> array \<open>a\<close>: a \<^verbatim>\<open>uint8\<close> array.\<close>

definition np_rsub :: "uint8 \<Rightarrow> raster \<Rightarrow> raster" where
  "np_rsub c a = map (map (px1 (\<lambda>k. c - k))) a"

text \<open>
  An elementwise operation on two arrays. All arrays the program combines have the shape
  of the source image; on arrays of different shapes \<^verbatim>\<open>numpy\<close> raises \<^verbatim>\<open>ValueError\<close>
  (shapes that differ and still broadcast do not arise here).
\<close>

definition np_binop :: "(uint8 \<Rightarrow> uint8 \<Rightarrow> uint8) \<Rightarrow> raster \<Rightarrow> raster \<Rightarrow> py_exception + raster" where
  "np_binop f a b =
     (if map length a = map length b then Inr (map2 (map2 (px2 f)) a b) else Inl ValueError)"

definition np_mul :: "raster \<Rightarrow> raster \<Rightarrow> py_exception + raster" where
  "np_mul a b = np_binop (\<lambda>x y. x * y) a b"

definition np_add :: "raster \<Rightarrow> raster \<Rightarrow> py_exception + raster" where
  "np_add a b = np_binop (\<lambda>x y. x + y) a b"

text \<open>\<^verbatim>\<open>c * pts\<close> and \<^verbatim>\<open>a + b\<close> on (N, 2) arrays of points.\<close>

definition np_scale :: "real \<Rightarrow> point list \<Rightarrow> point list" where
  "np_scale c pts = map (\<lambda>p. (c * fst p, c * snd p)) pts"

definition np_add_points :: "point list \<Rightarrow> point list \<Rightarrow> point list" where
  "np_add_points a b = map2 (\<lambda>p q. (fst p + fst q, snd p + snd q)) a b"

text \<open>\<^verbatim>\<open>pts[simplex]\<close>: the rows of \<open>pts\<close> at the indices of \<open>simplex\<close>; \<^verbatim>\<open>IndexError\<close> out of range.\<close>

definition np_index :: "point list \<Rightarrow> nat list \<Rightarrow> py_exception + point list" where
  "np_index pts simplex =
     (if list_all (\<lambda>i. i < length pts) simplex then Inr (map (\<lambda>i. pts ! i) simplex)
      else Inl IndexError)"

text \<open>\<^verbatim>\<open>astype(np.int32)\<close> on a float: truncation towards zero.\<close>

definition astype_int32 :: "point \<Rightarrow> int \<times> int" where
  "astype_int32 p =
     ((if 0 \<le> fst p then \<lfloor>fst p\<rfloor> else \<lceil>fst p\<rceil>), (if 0 \<le> snd p then \<lfloor>snd p\<rfloor> else \<lceil>snd p\<rceil>))"

text \<open>The image of \<open>h\<close> rows and \<open>w\<close> columns whose pixel at row \<open>y\<close>, column \<open>x\<close> is \<open>f y x\<close>.\<close>

definition tabulate :: "nat \<Rightarrow> nat \<Rightarrow> (nat \<Rightarrow> nat \<Rightarrow> pixel) \<Rightarrow> raster" where
  "tabulate h w f = map (\<lambda>y. map (\<lambda>x. f y x) [0..<w]) [0..<h]"

text \<open>\<^verbatim>\<open>cv2.warpAffine(image, warp_mat, (width, height))\<close>: a new image of that size.\<close>

definition cv2_warpAffine :: "libs \<Rightarrow> raster \<Rightarrow> matrix \<Rightarrow> nat \<times> nat \<Rightarrow> py_exception + raster" where
  "cv2_warpAffine L img warp_mat dsize =
     (case warpAffine L img warp_mat dsize of
        Inl e \<Rightarrow> Inl e
      | Inr f \<Rightarrow> Inr (tabulate (snd dsize) (fst dsize) f))"

text \<open>
  \<^verbatim>\<open>cv2.fillConvexPoly(mask, pts, color)\<close>: the pixels of \<open>mask\<close> that the polygon covers
  are set to \<open>color\<close>, the others keep their value.
\<close>

definition paint :: "raster \<Rightarrow> (nat \<Rightarrow> nat \<Rightarrow> bool) \<Rightarrow> pixel \<Rightarrow> raster" where
  "paint msk cov color =
     map (\<lambda>y. map (\<lambda>x. if cov y x then color else msk ! y ! x) [0..<length (msk ! y)])
       [0..<length msk]"

definition cv2_fillConvexPoly ::
  "libs \<Rightarrow> raster \<Rightarrow> (int \<times> int) list \<Rightarrow> pixel \<Rightarrow> py_exception + raster" where
  "cv2_fillConvexPoly L msk pts color =
     (case fillConvexPoly L (shape2 msk) pts of
        Inl e \<Rightarrow> Inl e
      | Inr cov \<Rightarrow> Inr (paint msk cov color))"

section \<open>The compositing loop\<close>

text \<open>
  \<^verbatim>\<open>update_morph\<close> (lines 333-344) and \<^verbatim>\<open>interpolate_image\<close> (lines 404-411) run the
  same loop over \<^verbatim>\<open>tri.simplices\<close>. They differ in the image they read, in the
  destination points and in the initial value of \<^verbatim>\<open>morphed\<close>; these are arguments here.
  \<open>loop_body\<close> is one iteration, \<open>simplices_loop\<close> the loop. An exception in any
  statement leaves the loop.
\<close>

definition loop_body ::
  "libs \<Rightarrow> raster \<Rightarrow> nat \<Rightarrow> nat \<Rightarrow> point list \<Rightarrow> point list \<Rightarrow> raster \<Rightarrow> nat list
     \<Rightarrow> py_exception + raster" where
  "loop_body L img width height source_points dst_points morphed simplex =
     (case np_index source_points simplex of Inl e \<Rightarrow> Inl e | Inr src_tri \<Rightarrow>
     (case np_index dst_points simplex of Inl e \<Rightarrow> Inl e | Inr dst_tri \<Rightarrow>
     (case getAffineTransform L src_tri dst_tri of Inl e \<Rightarrow> Inl e | Inr warp_mat \<Rightarrow>
     (case cv2_warpAffine L img warp_mat (width, height) of Inl e \<Rightarrow> Inl e | Inr warped \<Rightarrow>
     (case cv2_fillConvexPoly L (zeros_like img) (map astype_int32 dst_tri) (1, 1, 1) of
        Inl e \<Rightarrow> Inl e | Inr msk \<Rightarrow>
     (case np_mul morphed (np_rsub 1 msk) of Inl e \<Rightarrow> Inl e | Inr kept \<Rightarrow>
     (case np_mul warped msk of Inl e \<Rightarrow> Inl e | Inr painted \<Rightarrow>
      np_add kept painted)))))))"

fun simplices_loop ::
  "libs \<Rightarrow> raster \<Rightarrow> nat \<Rightarrow> nat \<Rightarrow> point list \<Rightarrow> point list \<Rightarrow> raster \<Rightarrow> nat list list
     \<Rightarrow> py_exception + raster" where
  "simplices_loop L img width height source_points dst_points morphed [] = Inr morphed"
| "simplices_loop L img width height source_points dst_points morphed (simplex # rest) =
     (case loop_body L img width height source_points dst_points morphed simplex of
        Inl e \<Rightarrow> Inl e
      | Inr morphed' \<Rightarrow>
          simplices_loop L img width height source_points dst_points morphed' rest)"

text \<open>The list comprehensions of lines 324-327 and 397-398: normalized to pixel coordinates.\<close>

definition pixel_points :: "nat \<Rightarrow> nat \<Rightarrow> point list \<Rightarrow> point list" where
  "pixel_points width height pts = map (\<lambda>p. (fst p * real width, snd p * real height)) pts"

section \<open>\<^verbatim>\<open>interpolate_image\<close>, \<^verbatim>\<open>update_morph\<close>, \<^verbatim>\<open>save_gif\<close>\<close>

text \<open>
  The \<^verbatim>\<open>try\<close> block of \<^verbatim>\<open>interpolate_image\<close> (lines 402-412): triangulate the source
  points, start from a zero image, run the loop.
\<close>

definition interpolate_try ::
  "libs \<Rightarrow> raster \<Rightarrow> nat \<Rightarrow> nat \<Rightarrow> point list \<Rightarrow> point list \<Rightarrow> py_exception + raster" where
  "interpolate_try L img width height source_points inter_points =
     (case Delaunay L source_points of
        Inl e \<Rightarrow> Inl e
      | Inr simplices \<Rightarrow>
          simplices_loop L img width height source_points inter_points
            (zeros_like img) simplices)"

text \<open>
  \<^verbatim>\<open>interpolate_image(self, t)\<close>. Line 396 reads \<^verbatim>\<open>self.source_canvas.image.shape\<close>
  outside the \<^verbatim>\<open>try\<close>: with no image loaded the \<^verbatim>\<open>AttributeError\<close> escapes. Any
  exception inside the \<^verbatim>\<open>try\<close> is caught, and the canvas image itself is returned.
  The method only reads the editor. (\<^verbatim>\<open>astype(np.uint8)\<close> on a \<^verbatim>\<open>uint8\<close> array
  changes no value.)
\<close>

definition interpolate_image :: "libs \<Rightarrow> editor \<Rightarrow> real \<Rightarrow> py_exception + raster" where
  "interpolate_image L s t =
     (case source_canvas_image s of
        None \<Rightarrow> Inl AttributeError
      | Some img \<Rightarrow>
          (let (height, width) = shape2 img;
               source_points = pixel_points width height (map source (points s));
               target_points = pixel_points width height (map target (points s));
               inter_points =
                 np_add_points (np_scale (1 - t) source_points) (np_scale t target_points)
           in case interpolate_try L img width height source_points inter_points of
                Inl e \<Rightarrow> Inr img
              | Inr morphed \<Rightarrow> Inr morphed))"

text \<open>
  The \<^verbatim>\<open>try\<close> block of \<^verbatim>\<open>update_morph\<close> (lines 330-344): the loop starts from a copy of
  the source image.
\<close>

definition update_try ::
  "libs \<Rightarrow> raster \<Rightarrow> nat \<Rightarrow> nat \<Rightarrow> point list \<Rightarrow> point list \<Rightarrow> py_exception + raster" where
  "update_try L img width height source_points target_points =
     (case Delaunay L source_points of
        Inl e \<Rightarrow> Inl e
      | Inr simplices \<Rightarrow>
          simplices_loop L img width height source_points target_points img simplices)"

text \<open>
  \<^verbatim>\<open>update_morph(self)\<close>: returns at once without an image or with fewer than three
  points; otherwise the morphed image is given to the target canvas
  (\<^verbatim>\<open>set_image\<close> stores a copy), unless an exception was caught.
\<close>

definition update_morph :: "libs \<Rightarrow> editor \<Rightarrow> editor" where
  "update_morph L s =
     (case source_image s of
        None \<Rightarrow> s
      | Some img \<Rightarrow>
          if length (points s) < 3 then s
          else
            (let (height, width) = shape2 img;
                 source_points = pixel_points width height (map source (points s));
                 target_points = pixel_points width height (map target (points s))
             in case update_try L img width height source_points target_points of
                  Inl e \<Rightarrow> s
                | Inr morphed \<Rightarrow> s\<lparr>target_canvas_image := Some morphed\<rparr>))"

text \<open>
  The frame loop of \<^verbatim>\<open>save_gif\<close> (lines 379-385) over the indices still to do.
  \<open>canceled i\<close> is the answer of \<^verbatim>\<open>progress.wasCanceled()\<close> in iteration \<open>i\<close>; on
  cancellation the method returns without a sequence (\<open>None\<close>).
  \<^verbatim>\<open>i / (num_frames - 1)\<close> raises \<^verbatim>\<open>ZeroDivisionError\<close> when \<^verbatim>\<open>num_frames\<close> is 1.
\<close>

fun frames_loop ::
  "libs \<Rightarrow> editor \<Rightarrow> (nat \<Rightarrow> bool) \<Rightarrow> int \<Rightarrow> nat list \<Rightarrow> raster list
     \<Rightarrow> py_exception + raster list option" where
  "frames_loop L s canceled num_frames [] images = Inr (Some images)"
| "frames_loop L s canceled num_frames (i # rest) images =
     (if canceled i then Inr None
      else if num_frames - 1 = 0 then Inl ZeroDivisionError
      else
        (case interpolate_image L s (real i / real_of_int (num_frames - 1)) of
           Inl e \<Rightarrow> Inl e
         | Inr morphed \<Rightarrow> frames_loop L s canceled num_frames rest (images @ [morphed])))"

text \<open>
  \<^verbatim>\<open>save_gif\<close> up to line 388: the list \<^verbatim>\<open>images\<close> that is handed to the GIF encoder.
  Line 376 reads the shape of the canvas image (\<^verbatim>\<open>AttributeError\<close> without one);
  \<^verbatim>\<open>images += images[::-1]\<close> when the loop box is checked.
\<close>

definition save_gif_images ::
  "libs \<Rightarrow> editor \<Rightarrow> (nat \<Rightarrow> bool) \<Rightarrow> nat \<Rightarrow> bool \<Rightarrow> py_exception + raster list option" where
  "save_gif_images L s canceled num_frames loop =
     (case source_canvas_image s of
        None \<Rightarrow> Inl AttributeError
      | Some img \<Rightarrow>
          (case frames_loop L s canceled (int num_frames) [0..<num_frames] [] of
             Inl e \<Rightarrow> Inl e
           | Inr None \<Rightarrow> Inr None
           | Inr (Some images) \<Rightarrow> Inr (Some (if loop then images @ rev images else images))))"

section \<open>\<^verbatim>\<open>save_template\<close> and \<^verbatim>\<open>load_template\<close>\<close>

text \<open>
  \<^verbatim>\<open>save_template\<close> and \<^verbatim>\<open>load_template\<close> use Python's \<^verbatim>\<open>csv\<close> module and the
  conversions between floats and text. These are parameters too: \<open>float_str\<close> is the
  text \<^verbatim>\<open>csv.writer\<close> writes for a float, \<open>float_of_str\<close> is \<^verbatim>\<open>float\<close> on a string,
  \<open>csv_writerow\<close> is the text written for one row of field texts, and \<open>csv_reader\<close>
  gives the rows of a file's text. A file system is a map from file names to contents;
  the file dialogs return the empty name when dismissed. Failures of the operating system
  on writing are outside the model.
\<close>

record pylibs =
  float_str :: "real \<Rightarrow> string"
  float_of_str :: "string \<Rightarrow> py_exception + real"
  csv_writerow :: "string list \<Rightarrow> string"
  csv_reader :: "string \<Rightarrow> string list list"

text \<open>
  \<^verbatim>\<open>save_template\<close> (lines 350-356): one \<^verbatim>\<open>writerow\<close> per point, with the four
  coordinates source x, source y, target x, target y, and nothing else.
\<close>

definition writerow_fields :: "pylibs \<Rightarrow> MorphPoint \<Rightarrow> string list" where
  "writerow_fields P point =
     map (float_str P)
       [fst (source point), snd (source point), fst (target point), snd (target point)]"

definition save_template ::
  "pylibs \<Rightarrow> editor \<Rightarrow> string \<Rightarrow> (string \<rightharpoonup> string) \<Rightarrow> (string \<rightharpoonup> string)" where
  "save_template P s file_name fs =
     (if file_name = [] then fs
      else fs(file_name \<mapsto>
             concat (map (\<lambda>point. csv_writerow P (writerow_fields P point)) (points s))))"

text \<open>
  \<^verbatim>\<open>load_template\<close> (lines 358-367). Line 365 unpacks \<^verbatim>\<open>map(float, row)\<close> into four
  names: the fields are converted in order, an exception of \<^verbatim>\<open>float\<close> escapes, and a
  row of fewer or more than four fields is a \<^verbatim>\<open>ValueError\<close> (the unpacking asks the
  lazy \<^verbatim>\<open>map\<close> for at most five values). The point list is cleared first and grows
  row by row, so an exception leaves the points read so far.
\<close>

fun map_float :: "pylibs \<Rightarrow> string list \<Rightarrow> py_exception + real list" where
  "map_float P [] = Inr []"
| "map_float P (field # rest) =
     (case float_of_str P field of
        Inl e \<Rightarrow> Inl e
      | Inr v \<Rightarrow> (case map_float P rest of Inl e \<Rightarrow> Inl e | Inr vs \<Rightarrow> Inr (v # vs)))"

definition unpack_row :: "pylibs \<Rightarrow> string list \<Rightarrow> py_exception + MorphPoint" where
  "unpack_row P row =
     (case map_float P (take 5 row) of
        Inl e \<Rightarrow> Inl e
      | Inr [src_x, src_y, tgt_x, tgt_y] \<Rightarrow>
          Inr \<lparr>source = (src_x, src_y), target = (tgt_x, tgt_y)\<rparr>
      | Inr _ \<Rightarrow> Inl ValueError)"

fun rows_loop ::
  "pylibs \<Rightarrow> string list list \<Rightarrow> MorphPoint list \<Rightarrow> py_exception option \<times> MorphPoint list" where
  "rows_loop P [] pts = (None, pts)"
| "rows_loop P (row # rest) pts =
     (case unpack_row P row of
        Inl e \<Rightarrow> (Some e, pts)
      | Inr point \<Rightarrow> rows_loop P rest (pts @ [point]))"

definition load_template ::
  "pylibs \<Rightarrow> editor \<Rightarrow> string \<Rightarrow> (string \<rightharpoonup> string) \<Rightarrow> py_exception option \<times> editor" where
  "load_template P s file_name fs =
     (if file_name = [] then (None, s)
      else
        (case fs file_name of
           None \<Rightarrow> (Some FileNotFoundError, s)
         | Some text \<Rightarrow>
             (case rows_loop P (csv_reader P text) [] of
                (err, pts) \<Rightarrow> (err, s\<lparr>points := pts\<rparr>))))"

section \<open>Names used in the statements\<close>

text \<open>
  The arrays of lines 397-400 of \<^verbatim>\<open>interpolate_image\<close> (and 324-327 of
  \<^verbatim>\<open>update_morph\<close>), as functions of the editor and its image: the source points and
  the target points in pixel space, and \<^verbatim>\<open>inter_points\<close>.
\<close>

definition source_layout :: "editor \<Rightarrow> raster \<Rightarrow> point list" where
  "source_layout s img =
     pixel_points (snd (shape2 img)) (fst (shape2 img)) (map source (points s))"

definition target_layout :: "editor \<Rightarrow> raster \<Rightarrow> point list" where
  "target_layout s img =
     pixel_points (snd (shape2 img)) (fst (shape2 img)) (map target (points s))"

definition inter_layout :: "editor \<Rightarrow> raster \<Rightarrow> real \<Rightarrow> point list" where
  "inter_layout s img t =
     np_add_points (np_scale (1 - t) (source_layout s img)) (np_scale t (target_layout s img))"

text \<open>
  \<open>covers\<close>: pixel (row \<open>y\<close>, column \<open>x\<close>) is set in the mask that the loop body draws
  for \<open>simplex\<close>. \<open>warped_pixel\<close>: that pixel of the image \<^verbatim>\<open>warped\<close> of the loop body
  for \<open>simplex\<close>. \<open>body_raises\<close>: an indexing or library call of the loop body raises for
  \<open>simplex\<close>.
\<close>

definition covers :: "libs \<Rightarrow> raster \<Rightarrow> point list \<Rightarrow> nat list \<Rightarrow> nat \<Rightarrow> nat \<Rightarrow> bool" where
  "covers L img dst_points simplex y x =
     (case np_index dst_points simplex of
        Inl e \<Rightarrow> False
      | Inr dst_tri \<Rightarrow>
          (case fillConvexPoly L (shape2 img) (map astype_int32 dst_tri) of
             Inl e \<Rightarrow> False
           | Inr cov \<Rightarrow> cov y x))"

definition warped_pixel ::
  "libs \<Rightarrow> raster \<Rightarrow> nat \<Rightarrow> nat \<Rightarrow> point list \<Rightarrow> point list \<Rightarrow> nat list \<Rightarrow> nat \<Rightarrow> nat \<Rightarrow> pixel" where
  "warped_pixel L img width height source_points dst_points simplex y x =
     (case np_index source_points simplex of Inl e \<Rightarrow> (0, 0, 0) | Inr src_tri \<Rightarrow>
     (case np_index dst_points simplex of Inl e \<Rightarrow> (0, 0, 0) | Inr dst_tri \<Rightarrow>
     (case getAffineTransform L src_tri dst_tri of Inl e \<Rightarrow> (0, 0, 0) | Inr warp_mat \<Rightarrow>
     (case warpAffine L img warp_mat (width, height) of Inl e \<Rightarrow> (0, 0, 0) | Inr f \<Rightarrow> f y x))))"

definition body_raises ::
  "libs \<Rightarrow> raster \<Rightarrow> nat \<Rightarrow> nat \<Rightarrow> point list \<Rightarrow> point list \<Rightarrow> nat list \<Rightarrow> bool" where
  "body_raises L img width height source_points dst_points simplex =
     (case np_index source_points simplex of Inl e \<Rightarrow> True | Inr src_tri \<Rightarrow>
     (case np_index dst_points simplex of Inl e \<Rightarrow> True | Inr dst_tri \<Rightarrow>
     (case getAffineTransform L src_tri dst_tri of Inl e \<Rightarrow> True | Inr warp_mat \<Rightarrow>
     (case warpAffine L img warp_mat (width, height) of Inl e \<Rightarrow> True | Inr f \<Rightarrow>
     (case fillConvexPoly L (shape2 img) (map astype_int32 dst_tri) of
        Inl e \<Rightarrow> True | Inr cov \<Rightarrow> False)))))"

text \<open>
  The blended point of the specification, written per correspondence:
  (1 - t) * source + t * target, both taken to pixel space first.
\<close>

definition blended_point :: "nat \<Rightarrow> nat \<Rightarrow> real \<Rightarrow> MorphPoint \<Rightarrow> point" where
  "blended_point width height t p =
     ((1 - t) * (fst (source p) * real width) + t * (fst (target p) * real width),
      (1 - t) * (snd (source p) * real height) + t * (snd (target p) * real height))"

text \<open>
  The compositor as the specification words it (section 4.2, step 1), for comparison with
  the loop of the program: three source points are collinear when the triangle they span
  has no area, and a simplex with collinear source points is skipped, its footprint left
  as it is; every other simplex is composited by the loop body of the program.
\<close>

definition collinear :: "point list \<Rightarrow> bool" where
  "collinear tri =
     (case tri of
        [(x0, y0), (x1, y1), (x2, y2)] \<Rightarrow> (x1 - x0) * (y2 - y0) - (x2 - x0) * (y1 - y0) = 0
      | _ \<Rightarrow> False)"

fun spec_composite ::
  "libs \<Rightarrow> raster \<Rightarrow> nat \<Rightarrow> nat \<Rightarrow> point list \<Rightarrow> point list \<Rightarrow> raster \<Rightarrow> nat list list
     \<Rightarrow> py_exception + raster" where
  "spec_composite L img width height source_points dst_points output [] = Inr output"
| "spec_composite L img width height source_points dst_points output (simplex # rest) =
     (case np_index source_points simplex of
        Inl e \<Rightarrow> Inl e
      | Inr src_tri \<Rightarrow>
          if collinear src_tri
          then spec_composite L img width height source_points dst_points output rest
          else
            (case loop_body L img width height source_points dst_points output simplex of
               Inl e \<Rightarrow> Inl e
             | Inr output' \<Rightarrow>
                 spec_composite L img width height source_points dst_points output' rest))"

text \<open>
  The precision of the float formatting: \<open>reads_back P eps v\<close> when the text written for
  \<open>v\<close> is read as a float within \<open>eps\<close> of \<open>v\<close>; \<open>close_points\<close> compares two
  correspondences coordinate by coordinate.
\<close>

definition reads_back :: "pylibs \<Rightarrow> real \<Rightarrow> real \<Rightarrow> bool" where
  "reads_back P eps v =
     (case float_of_str P (float_str P v) of Inl e \<Rightarrow> False | Inr v' \<Rightarrow> \<bar>v' - v\<bar> \<le> eps)"

definition reads_back_point :: "pylibs \<Rightarrow> real \<Rightarrow> MorphPoint \<Rightarrow> bool" where
  "reads_back_point P eps point =
     (reads_back P eps (fst (source point)) \<and> reads_back P eps (snd (source point))
      \<and> reads_back P eps (fst (target point)) \<and> reads_back P eps (snd (target point)))"

definition close_points :: "real \<Rightarrow> MorphPoint \<Rightarrow> MorphPoint \<Rightarrow> bool" where
  "close_points eps p q =
     (\<bar>fst (source q) - fst (source p)\<bar> \<le> eps \<and> \<bar>snd (source q) - snd (source p)\<bar> \<le> eps
      \<and> \<bar>fst (target q) - fst (target p)\<bar> \<le> eps \<and> \<bar>snd (target q) - snd (target p)\<bar> \<le> eps)"

section \<open>Concrete instances of the libraries, and inputs\<close>

text \<open>
  The theorems below hold for every value of the library record. To run the program on
  concrete inputs an instance is needed; \<open>plain_libs\<close> is a small executable one:
  the Delaunay triangulation by the empty circumcircle test, the exact affine map of
  three point pairs (the zero matrix when the source points are collinear),
  nearest-neighbour sampling with a black border, and an inclusive point-in-triangle fill
  clipped to the image.

  \<open>plain_Delaunay\<close> returns every triangle of input points that has area and has no
  input point strictly inside its circumcircle. For points in general position (no four
  on a circle) these are the triangles of the Delaunay triangulation; a simplex with
  collinear points is never among them. When there is no such triangle (fewer than three
  points, or all points on a line) it raises, as Qhull does.
\<close>

definition plain_orient :: "point \<Rightarrow> point \<Rightarrow> point \<Rightarrow> real" where
  "plain_orient a b c =
     (fst b - fst a) * (snd c - snd a) - (fst c - fst a) * (snd b - snd a)"

definition plain_in_circle :: "point \<Rightarrow> point \<Rightarrow> point \<Rightarrow> point \<Rightarrow> bool" where
  "plain_in_circle a b c d =
     (let adx = fst a - fst d; ady = snd a - snd d; ad2 = adx * adx + ady * ady;
          bdx = fst b - fst d; bdy = snd b - snd d; bd2 = bdx * bdx + bdy * bdy;
          cdx = fst c - fst d; cdy = snd c - snd d; cd2 = cdx * cdx + cdy * cdy
      in 0 < (adx * (bdy * cd2 - bd2 * cdy) - ady * (bdx * cd2 - bd2 * cdx)
               + ad2 * (bdx * cdy - bdy * cdx)) * plain_orient a b c)"

definition plain_triples :: "nat \<Rightarrow> nat list list" where
  "plain_triples n =
     concat (map (\<lambda>i. concat (map (\<lambda>j. map (\<lambda>k. [i, j, k]) [Suc j..<n]) [Suc i..<n])) [0..<n])"

definition plain_is_Delaunay :: "point list \<Rightarrow> nat list \<Rightarrow> bool" where
  "plain_is_Delaunay pts simplex =
     (case simplex of
        [i, j, k] \<Rightarrow>
          plain_orient (pts ! i) (pts ! j) (pts ! k) \<noteq> 0
          \<and> list_all (\<lambda>d. \<not> plain_in_circle (pts ! i) (pts ! j) (pts ! k) d) pts
      | _ \<Rightarrow> False)"

definition plain_Delaunay :: "point list \<Rightarrow> py_exception + nat list list" where
  "plain_Delaunay pts =
     (case filter (plain_is_Delaunay pts) (plain_triples (length pts)) of
        [] \<Rightarrow> Inl QhullError
      | simplex # rest \<Rightarrow> Inr (simplex # rest))"

definition plain_getAffineTransform :: "point list \<Rightarrow> point list \<Rightarrow> py_exception + matrix" where
  "plain_getAffineTransform src dst =
     (case (src, dst) of
        ([(x0, y0), (x1, y1), (x2, y2)], [(u0, v0), (u1, v1), (u2, v2)]) \<Rightarrow>
          (let d = (x1 - x0) * (y2 - y0) - (x2 - x0) * (y1 - y0) in
           if d = 0 then Inr ((0, 0, 0), (0, 0, 0))
           else
             (let a = ((u1 - u0) * (y2 - y0) - (u2 - u0) * (y1 - y0)) / d;
                  b = ((u2 - u0) * (x1 - x0) - (u1 - u0) * (x2 - x0)) / d;
                  c = ((v1 - v0) * (y2 - y0) - (v2 - v0) * (y1 - y0)) / d;
                  e = ((v2 - v0) * (x1 - x0) - (v1 - v0) * (x2 - x0)) / d
              in Inr ((a, b, u0 - a * x0 - b * y0), (c, e, v0 - c * x0 - e * y0))))
      | _ \<Rightarrow> Inl CvError)"

definition plain_sample :: "raster \<Rightarrow> int \<Rightarrow> int \<Rightarrow> pixel" where
  "plain_sample img sx sy =
     (if 0 \<le> sy \<and> nat sy < length img \<and> 0 \<le> sx \<and> nat sx < length (img ! nat sy)
      then img ! nat sy ! nat sx else (0, 0, 0))"

definition plain_warpAffine ::
  "raster \<Rightarrow> matrix \<Rightarrow> nat \<times> nat \<Rightarrow> py_exception + (nat \<Rightarrow> nat \<Rightarrow> pixel)" where
  "plain_warpAffine img m dsize =
     (case m of ((a, b, tx), (c, e, ty)) \<Rightarrow>
        (let d = a * e - b * c in
         if d = 0 then Inr (\<lambda>y x. plain_sample img 0 0)
         else Inr (\<lambda>y x.
           plain_sample img
             (round ((e * (real x - tx) - b * (real y - ty)) / d))
             (round ((a * (real y - ty) - c * (real x - tx)) / d)))))"

definition plain_side :: "int \<times> int \<Rightarrow> int \<times> int \<Rightarrow> int \<times> int \<Rightarrow> int" where
  "plain_side p q r = (fst q - fst p) * (snd r - snd p) - (snd q - snd p) * (fst r - fst p)"

definition plain_fillConvexPoly ::
  "nat \<times> nat \<Rightarrow> (int \<times> int) list \<Rightarrow> py_exception + (nat \<Rightarrow> nat \<Rightarrow> bool)" where
  "plain_fillConvexPoly shape pts =
     (case pts of
        [p, q, r] \<Rightarrow>
          Inr (\<lambda>y x.
            y < fst shape \<and> x < snd shape \<and>
            min (fst p) (min (fst q) (fst r)) \<le> int x \<and> int x \<le> max (fst p) (max (fst q) (fst r)) \<and>
            min (snd p) (min (snd q) (snd r)) \<le> int y \<and> int y \<le> max (snd p) (max (snd q) (snd r)) \<and>
            ((0 \<le> plain_side p q (int x, int y) \<and> 0 \<le> plain_side q r (int x, int y)
               \<and> 0 \<le> plain_side r p (int x, int y))
             \<or> (plain_side p q (int x, int y) \<le> 0 \<and> plain_side q r (int x, int y) \<le> 0
               \<and> plain_side r p (int x, int y) \<le> 0)))
      | _ \<Rightarrow> Inl CvError)"

definition plain_libs :: libs where
  "plain_libs =
     \<lparr>Delaunay = plain_Delaunay, getAffineTransform = plain_getAffineTransform,
      warpAffine = plain_warpAffine, fillConvexPoly = plain_fillConvexPoly\<rparr>"

text \<open>A 3 x 3 image with nine different pixels, and editors holding it.\<close>

definition grey :: "uint8 \<Rightarrow> pixel" where
  "grey v = (v, v, v)"

definition img33 :: raster where
  "img33 =
     [[grey 11, grey 12, grey 13],
      [grey 21, grey 22, grey 23],
      [grey 31, grey 32, grey 33]]"

definition editor_with :: "MorphPoint list \<Rightarrow> editor" where
  "editor_with pts =
     \<lparr>source_image = Some img33, target_image = Some img33, points = pts,
      source_canvas_image = Some img33, target_canvas_image = Some img33\<rparr>"

text \<open>
  Three points: in pixel space the triangle (0, 0), (2, 0), (0, 2), with target equal to
  source. The pixels (row 1, column 2), (2, 1) and (2, 2) lie outside it.
\<close>

definition corner_points :: "MorphPoint list" where
  "corner_points =
     [\<lparr>source = (0, 0), target = (0, 0)\<rparr>,
      \<lparr>source = (2 / 3, 0), target = (2 / 3, 0)\<rparr>,
      \<lparr>source = (0, 2 / 3), target = (0, 2 / 3)\<rparr>]"

text \<open>Two points only, and a library whose \<open>getAffineTransform\<close> always raises.\<close>

definition two_points :: "MorphPoint list" where
  "two_points =
     [\<lparr>source = (0, 0), target = (0, 0)\<rparr>,
      \<lparr>source = (2 / 3, 0), target = (2 / 3, 2 / 3)\<rparr>]"

definition raising_affine :: libs where
  "raising_affine = plain_libs\<lparr>getAffineTransform := \<lambda>src dst. Inl CvError\<rparr>"

text \<open>Three points whose targets differ from their sources.\<close>

definition moved_points :: "MorphPoint list" where
  "moved_points =
     [\<lparr>source = (0, 0), target = (1 / 3, 0)\<rparr>,
      \<lparr>source = (2 / 3, 0), target = (2 / 3, 0)\<rparr>,
      \<lparr>source = (0, 2 / 3), target = (1 / 3, 2 / 3)\<rparr>]"

text \<open>A library whose \<open>Delaunay\<close> returns no simplex at all.\<close>

definition empty_Delaunay :: libs where
  "empty_Delaunay = plain_libs\<lparr>Delaunay := \<lambda>pts. Inr []\<rparr>"

text \<open>
  An executable instance of the CSV and float libraries: rows joined by commas and ended
  by CR LF,
  read back by splitting at line ends and commas, and a float formatter that knows the
  texts of a few values.
\<close>

fun join_fields :: "string list \<Rightarrow> string" where
  "join_fields [] = []"
| "join_fields [field] = field"
| "join_fields (field # rest) = field @ CHR '','' # join_fields rest"

fun split_on :: "char \<Rightarrow> string \<Rightarrow> string list" where
  "split_on sep [] = [[]]"
| "split_on sep (c # cs) =
     (if c = sep then [] # split_on sep cs
      else (case split_on sep cs of [] \<Rightarrow> [[c]] | field # rest \<Rightarrow> (c # field) # rest))"

definition plain_floats :: "(real \<times> string) list" where
  "plain_floats = [(0, ''0.0''), (1 / 4, ''0.25''), (1 / 2, ''0.5''), (1, ''1.0'')]"

definition plain_float_str :: "real \<Rightarrow> string" where
  "plain_float_str v = (case map_of plain_floats v of None \<Rightarrow> ''nan'' | Some text \<Rightarrow> text)"

definition plain_float_of_str :: "string \<Rightarrow> py_exception + real" where
  "plain_float_of_str text =
     (case map_of (map (\<lambda>(v, t). (t, v)) plain_floats) text of
        None \<Rightarrow> Inl ValueError
      | Some v \<Rightarrow> Inr v)"

definition plain_csv_writerow :: "string list \<Rightarrow> string" where
  "plain_csv_writerow row = join_fields row @ [CHR 0x0D, CHR 0x0A]"

definition plain_csv_reader :: "string \<Rightarrow> string list list" where
  "plain_csv_reader text =
     map (split_on CHR '','') (butlast (split_on (CHR 0x0A) (filter (\<lambda>c. c \<noteq> CHR 0x0D) text)))"

definition plain_pylibs :: pylibs where
  "plain_pylibs =
     \<lparr>float_str = plain_float_str, float_of_str = plain_float_of_str,
      csv_writerow = plain_csv_writerow, csv_reader = plain_csv_reader\<rparr>"

definition template_points :: "MorphPoint list" where
  "template_points =
     [\<lparr>source = (0, 0), target = (1 / 2, 1)\<rparr>,
      \<lparr>source = (1, 1 / 2), target = (1 / 4, 0)\<rparr>]"

section \<open>Properties of the array operations and of the loop\<close>

lemmas plain_defs = plain_libs_def plain_getAffineTransform_def plain_warpAffine_def
  plain_fillConvexPoly_def plain_side_def plain_sample_def
lemmas np_defs = shape2_def zeros_like_def px1_def px2_def np_rsub_def np_binop_def np_mul_def np_add_def
  np_scale_def np_add_points_def np_index_def astype_int32_def tabulate_def cv2_warpAffine_def paint_def
  cv2_fillConvexPoly_def pixel_points_def

lemma upt3: "[0..<3] = [0, 1, 2]"
  by (simp add: upt_rec)

lemma plain_triples_few: "n < 3 \<Longrightarrow> plain_triples n = []"
proof -
  assume "n < 3"
  then consider "n = 0" | "n = 1" | "n = 2" by linarith
  then show ?thesis
    by cases (simp_all add: plain_triples_def upt_rec)
qed

lemma plain_triples_3: "plain_triples 3 = [[0, 1, 2]]"
  by (simp add: plain_triples_def upt_rec)

lemma plain_Delaunay_few: "length pts < 3 \<Longrightarrow> plain_Delaunay pts = Inl QhullError"
  by (simp add: plain_Delaunay_def plain_triples_few)

lemma plain_Delaunay_3:
  "plain_Delaunay [(0, 0), (2, 0), (0, 2)] = Inr [[0, 1, 2]]"
  "Delaunay plain_libs [(0, 0), (2, 0), (0, 2)] = Inr [[0, 1, 2]]"
proof -
  have t: "plain_triples (length [(0 :: real, 0 :: real), (2, 0), (0, 2)]) = [[0, 1, 2]]"
    using plain_triples_3 by (simp add: numeral_3_eq_3)
  have f: "plain_is_Delaunay [(0, 0), (2, 0), (0, 2)] [0, 1, 2]"
    by (simp add: plain_is_Delaunay_def plain_orient_def plain_in_circle_def Let_def)
  show 1: "plain_Delaunay [(0, 0), (2, 0), (0, 2)] = Inr [[0, 1, 2]]"
    unfolding plain_Delaunay_def t using f by simp
  show "Delaunay plain_libs [(0, 0), (2, 0), (0, 2)] = Inr [[0, 1, 2]]"
    using 1 by (simp add: plain_libs_def)
qed


lemma shape2_zeros_like: "shape2 (zeros_like img) = shape2 img"
  by (cases img) (simp_all add: shape2_def zeros_like_def)

lemma lengths_zeros_like: "map length (zeros_like img) = map length img"
  by (simp add: zeros_like_def)

lemma nth_zeros_like: "y < length img \<Longrightarrow> x < length (img ! y) \<Longrightarrow> zeros_like img ! y ! x = (0, 0, 0)"
  by (simp add: zeros_like_def)

lemma lengths_paint: "map length (paint m cov c) = map length m"
  by (rule nth_equalityI) (simp_all add: paint_def)

lemma nth_paint:
  "y < length m \<Longrightarrow> x < length (m ! y) \<Longrightarrow> paint m cov c ! y ! x = (if cov y x then c else m ! y ! x)"
  by (simp add: paint_def)

lemma lengths_np_rsub: "map length (np_rsub c a) = map length a"
  by (simp add: np_rsub_def)

lemma nth_np_rsub:
  "y < length a \<Longrightarrow> x < length (a ! y) \<Longrightarrow> np_rsub c a ! y ! x = px1 (\<lambda>k. c - k) (a ! y ! x)"
  by (simp add: np_rsub_def)

lemma lengths_tabulate: "map length (tabulate h w f) = replicate h w"
  by (rule nth_equalityI) (simp_all add: tabulate_def)

lemma nth_tabulate: "y < h \<Longrightarrow> x < w \<Longrightarrow> tabulate h w f ! y ! x = f y x"
  by (simp add: tabulate_def)

lemma lengths_row:
  assumes "map length a = map length b" and "y < length a"
  shows "length (a ! y) = length (b ! y)"
proof -
  have "length a = length b" using assms(1) by (metis length_map)
  then have "map length a ! y = length (a ! y)" "map length b ! y = length (b ! y)"
    using assms(2) by simp_all
  then show ?thesis using assms(1) by simp
qed

lemma np_binop_lengths:
  assumes "np_binop f a b = Inr c"
  shows "map length a = map length b" and "map length c = map length a"
proof -
  show eq: "map length a = map length b"
    using assms by (simp add: np_binop_def split: if_splits)
  have c: "c = map2 (map2 (px2 f)) a b"
    using assms by (simp add: np_binop_def split: if_splits)
  have len: "length a = length b" using eq by (metis length_map)
  show "map length c = map length a"
    unfolding c using len lengths_row [OF eq]
    by (simp add: list_eq_iff_nth_eq)
qed

lemma np_binop_nth:
  assumes "np_binop f a b = Inr c" and "y < length a" and "x < length (a ! y)"
  shows "c ! y ! x = px2 f (a ! y ! x) (b ! y ! x)"
proof -
  have eq: "map length a = map length b"
    using assms(1) by (rule np_binop_lengths)
  have c: "c = map2 (map2 (px2 f)) a b"
    using assms(1) by (simp add: np_binop_def split: if_splits)
  have len: "length a = length b" using eq by (metis length_map)
  have row: "length (a ! y) = length (b ! y)" using eq assms(2) by (rule lengths_row)
  show ?thesis unfolding c using len row assms(2,3) by simp
qed

lemma blend_pixel:
  "px2 (+) (px2 (*) m (px1 (\<lambda>k. 1 - k) (if c then (1, 1, 1) else (0, 0, 0))))
     (px2 (*) w (if c then (1, 1, 1) else (0, 0, 0))) = (if c then w else m)"
proof -
  obtain m1 m2 m3 where m: "m = (m1, m2, m3)" by (metis prod_cases3)
  obtain w1 w2 w3 where w: "w = (w1, w2, w3)" by (metis prod_cases3)
  show ?thesis
  proof (cases c)
    case True
    then show ?thesis unfolding m w by (simp add: px1_def px2_def)
  next
    case False
    then show ?thesis unfolding m w by (simp add: px1_def px2_def)
  qed
qed


lemma loop_body_raises:
  assumes "body_raises L img w h sp dp simplex"
  shows "\<exists>e. loop_body L img w h sp dp m simplex = Inl e"
  using assms
  by (auto simp: body_raises_def loop_body_def cv2_warpAffine_def cv2_fillConvexPoly_def
      shape2_zeros_like split: sum.splits)

lemma simplices_loop_raises:
  assumes "simplex \<in> set simplices" and "body_raises L img w h sp dp simplex"
  shows "\<exists>e. simplices_loop L img w h sp dp m simplices = Inl e"
  using assms
proof (induction simplices arbitrary: m)
  case Nil
  then show ?case by simp
next
  case (Cons a rest)
  show ?case
  proof (cases "loop_body L img w h sp dp m a")
    case (Inl e)
    then show ?thesis by simp
  next
    case (Inr m')
    with Cons.prems loop_body_raises [of L img w h sp dp a m] have "simplex \<in> set rest"
      by auto
    with Cons.IH Cons.prems(2) Inr show ?thesis by simp
  qed
qed

lemma loop_body_Inr:
  assumes "loop_body L img w h sp dp m simplex = Inr m'"
  shows "map length m' = map length m"
    and "map length m = map length img"
    and "y < length m \<Longrightarrow> x < length (m ! y) \<Longrightarrow>
         m' ! y ! x =
           (if covers L img dp simplex y x then warped_pixel L img w h sp dp simplex y x
            else m ! y ! x)"
proof -
  from assms obtain src_tri dst_tri warp_mat f cov kept painted where
    src: "np_index sp simplex = Inr src_tri" and
    dst: "np_index dp simplex = Inr dst_tri" and
    mat: "getAffineTransform L src_tri dst_tri = Inr warp_mat" and
    wrp: "warpAffine L img warp_mat (w, h) = Inr f" and
    fil: "fillConvexPoly L (shape2 img) (map astype_int32 dst_tri) = Inr cov" and
    kept: "np_mul m (np_rsub 1 (paint (zeros_like img) cov (1, 1, 1))) = Inr kept" and
    painted: "np_mul (tabulate h w f) (paint (zeros_like img) cov (1, 1, 1)) = Inr painted" and
    sum: "np_add kept painted = Inr m'"
    by (auto simp: loop_body_def cv2_warpAffine_def cv2_fillConvexPoly_def shape2_zeros_like
        split: sum.splits)
  let ?msk = "paint (zeros_like img) cov (1, 1, 1)"
  have msk_len: "map length ?msk = map length img"
    by (simp add: lengths_paint lengths_zeros_like)
  have m_msk: "map length m = map length ?msk"
    using np_binop_lengths(1) [OF kept [unfolded np_mul_def]] by (simp add: lengths_np_rsub)
  have kept_len: "map length kept = map length m"
    using np_binop_lengths(2) [OF kept [unfolded np_mul_def]] .
  have w_msk: "map length (tabulate h w f) = map length ?msk"
    using np_binop_lengths(1) [OF painted [unfolded np_mul_def]] .
  show "map length m' = map length m"
    using np_binop_lengths(2) [OF sum [unfolded np_add_def]] kept_len by simp
  show m_img: "map length m = map length img"
    using m_msk msk_len by simp
  show "m' ! y ! x =
           (if covers L img dp simplex y x then warped_pixel L img w h sp dp simplex y x
            else m ! y ! x)" if y: "y < length m" and x: "x < length (m ! y)"
  proof -
    have len_img: "length m = length img" using m_img by (metis length_map)
    have row_img: "length (m ! y) = length (img ! y)" using m_img y by (rule lengths_row)
    have yz: "y < length (zeros_like img)" using y len_img by (simp add: zeros_like_def)
    have xz: "x < length (zeros_like img ! y)"
      using x y row_img len_img by (simp add: zeros_like_def)
    have msk_px: "?msk ! y ! x = (if cov y x then (1, 1, 1) else (0, 0, 0))"
      using nth_paint [OF yz xz] nth_zeros_like [of y img x] y x len_img row_img by simp
    have len_msk: "length ?msk = length m" using m_msk by (metis length_map)
    have row_msk: "length (?msk ! y) = length (m ! y)"
      using lengths_row [OF m_msk y] by simp
    have len_w: "length (tabulate h w f) = length m" using w_msk m_msk by (metis length_map)
    have yw: "y < length (tabulate h w f)" using y len_w by simp
    have row_w: "length (tabulate h w f ! y) = length (m ! y)"
      using lengths_row [OF w_msk yw] row_msk by simp
    have hw: "y < h" "x < w"
      using yw x row_w by (simp_all add: tabulate_def)
    have w_px: "tabulate h w f ! y ! x = f y x" using hw by (rule nth_tabulate)
    have kept_px: "kept ! y ! x = px2 (*) (m ! y ! x) (px1 (\<lambda>k. 1 - k) (?msk ! y ! x))"
      using np_binop_nth [OF kept [unfolded np_mul_def] y x]
        nth_np_rsub [of y ?msk x 1] y x len_msk row_msk by simp
    have painted_px: "painted ! y ! x = px2 (*) (f y x) (?msk ! y ! x)"
      using np_binop_nth [OF painted [unfolded np_mul_def] yw] x row_w w_px by simp
    have yk: "y < length kept" using kept_len y by (metis length_map)
    have xk: "x < length (kept ! y)" using lengths_row [OF kept_len yk] x by simp
    have "m' ! y ! x = px2 (+) (kept ! y ! x) (painted ! y ! x)"
      using np_binop_nth [OF sum [unfolded np_add_def] yk xk] .
    also have "\<dots> = (if cov y x then f y x else m ! y ! x)"
      unfolding kept_px painted_px msk_px by (rule blend_pixel)
    finally show ?thesis
      by (simp add: covers_def warped_pixel_def src dst mat wrp fil)
  qed
qed


lemma simplices_loop_append:
  "simplices_loop L img w h sp dp m (pre @ post) =
     (case simplices_loop L img w h sp dp m pre of
        Inl e \<Rightarrow> Inl e
      | Inr m' \<Rightarrow> simplices_loop L img w h sp dp m' post)"
  by (induction pre arbitrary: m) (auto split: sum.splits)

lemma simplices_loop_lengths:
  "simplices_loop L img w h sp dp m simplices = Inr out \<Longrightarrow> map length out = map length m"
proof (induction simplices arbitrary: m)
  case Nil
  then show ?case by simp
next
  case (Cons a rest)
  then obtain m' where a: "loop_body L img w h sp dp m a = Inr m'"
    and rest: "simplices_loop L img w h sp dp m' rest = Inr out"
    by (auto split: sum.splits)
  from Cons.IH [OF rest] loop_body_Inr(1) [OF a] show ?case by simp
qed

lemma simplices_loop_uncovered:
  assumes "simplices_loop L img w h sp dp m simplices = Inr out"
    and "y < length m" and "x < length (m ! y)"
    and "\<And>simplex. simplex \<in> set simplices \<Longrightarrow> \<not> covers L img dp simplex y x"
  shows "out ! y ! x = m ! y ! x"
  using assms
proof (induction simplices arbitrary: m)
  case Nil
  then show ?case by simp
next
  case (Cons a rest)
  from Cons.prems(1) obtain m' where a: "loop_body L img w h sp dp m a = Inr m'"
    and rest: "simplices_loop L img w h sp dp m' rest = Inr out"
    by (auto split: sum.splits)
  have len: "map length m' = map length m" using a by (rule loop_body_Inr(1))
  have y': "y < length m'" using len Cons.prems(2) by (metis length_map)
  have x': "x < length (m' ! y)" using lengths_row [OF len y'] Cons.prems(3) by simp
  have "out ! y ! x = m' ! y ! x"
    using Cons.IH [OF rest y' x'] Cons.prems(4) by simp
  also have "\<dots> = m ! y ! x"
    using loop_body_Inr(3) [OF a Cons.prems(2,3)] Cons.prems(4) [of a] by simp
  finally show ?case .
qed

lemma simplices_loop_last_cover:
  assumes "simplices_loop L img w h sp dp m (pre @ simplex # post) = Inr out"
    and "y < length m" and "x < length (m ! y)"
    and "covers L img dp simplex y x"
    and "\<And>later. later \<in> set post \<Longrightarrow> \<not> covers L img dp later y x"
  shows "out ! y ! x = warped_pixel L img w h sp dp simplex y x"
proof -
  from assms(1) obtain m1 m2 where pre: "simplices_loop L img w h sp dp m pre = Inr m1"
    and body: "loop_body L img w h sp dp m1 simplex = Inr m2"
    and post: "simplices_loop L img w h sp dp m2 post = Inr out"
    by (auto simp: simplices_loop_append split: sum.splits)
  have len1: "map length m1 = map length m" using pre by (rule simplices_loop_lengths)
  have y1: "y < length m1" using len1 assms(2) by (metis length_map)
  have x1: "x < length (m1 ! y)" using lengths_row [OF len1 y1] assms(3) by simp
  have len2: "map length m2 = map length m1" using body by (rule loop_body_Inr(1))
  have y2: "y < length m2" using len2 y1 by (metis length_map)
  have x2: "x < length (m2 ! y)" using lengths_row [OF len2 y2] x1 by simp
  have "out ! y ! x = m2 ! y ! x"
    using simplices_loop_uncovered [OF post y2 x2] assms(5) by simp
  also have "\<dots> = warped_pixel L img w h sp dp simplex y x"
    using loop_body_Inr(3) [OF body y1 x1] assms(4) by simp
  finally show ?thesis .
qed

lemma interpolate_image_Some:
  assumes "source_canvas_image s = Some img"
  shows "interpolate_image L s t =
     (case interpolate_try L img (snd (shape2 img)) (fst (shape2 img))
             (source_layout s img) (inter_layout s img t) of
        Inl e \<Rightarrow> Inr img
      | Inr morphed \<Rightarrow> Inr morphed)"
  using assms
  by (simp add: interpolate_image_def source_layout_def target_layout_def inter_layout_def
      Let_def split: prod.splits)

lemma interpolate_try_raises:
  assumes "Delaunay L sp = Inl e
      \<or> (\<exists>simplices simplex. Delaunay L sp = Inr simplices \<and> simplex \<in> set simplices
            \<and> body_raises L img w h sp ip simplex)"
  shows "\<exists>e'. interpolate_try L img w h sp ip = Inl e'"
  using assms simplices_loop_raises [of _ _ L img w h sp ip "zeros_like img"]
  by (auto simp: interpolate_try_def)


section \<open>Exceptions inside \<^verbatim>\<open>interpolate_image\<close>\<close>

text \<open>
  Claim C10. Whenever a step inside the \<^verbatim>\<open>try\<close> block of \<^verbatim>\<open>interpolate_image\<close>
  raises (the triangulation, or for some simplex the indexing, the affine transform,
  the warp or the mask fill, or anything else that makes the block raise), the method
  returns the image of the source canvas itself, not a partial or empty frame. The
  method only reads the editor, and its caller, the frame loop of \<^verbatim>\<open>save_gif\<close>, goes on
  with the remaining frames exactly as after any other frame, the source image
  appended to \<^verbatim>\<open>images\<close>.
\<close>

theorem interpolate_image_exception_returns_source:
  assumes "source_canvas_image s = Some img"
    and "w = snd (shape2 img)" and "h = fst (shape2 img)"
    and "Delaunay L (source_layout s img) = Inl e
      \<or> (\<exists>simplices simplex. Delaunay L (source_layout s img) = Inr simplices
            \<and> simplex \<in> set simplices
            \<and> body_raises L img w h (source_layout s img) (inter_layout s img t) simplex)
      \<or> interpolate_try L img w h (source_layout s img) (inter_layout s img t) = Inl e"
  shows "interpolate_image L s t = Inr img
    \<and> (\<not> canceled i \<and> num_frames - 1 \<noteq> 0 \<and> t = real i / real_of_int (num_frames - 1) \<longrightarrow>
         frames_loop L s canceled num_frames (i # rest) images =
           frames_loop L s canceled num_frames rest (images @ [img]))"
proof -
  have "\<exists>e'. interpolate_try L img w h (source_layout s img) (inter_layout s img t) = Inl e'"
    using assms(4) interpolate_try_raises [of L "source_layout s img" e img w h "inter_layout s img t"]
    by blast
  then have "interpolate_image L s t = Inr img"
    using assms(1-3) by (auto simp: interpolate_image_Some)
  then show ?thesis by auto
qed

theorem interpolate_image_exception_witness:
  "interpolate_image plain_libs (editor_with two_points) (1 / 2) = Inr img33
   \<and> interpolate_image raising_affine (editor_with corner_points) (1 / 2) = Inr img33
   \<and> frames_loop raising_affine (editor_with corner_points) (\<lambda>i. False) 3 [1, 2] [] =
       frames_loop raising_affine (editor_with corner_points) (\<lambda>i. False) 3 [2] [img33]"
proof -
  have a: "source_canvas_image (editor_with two_points) = Some img33"
    by (simp add: editor_with_def)
  have b: "Delaunay plain_libs (source_layout (editor_with two_points) img33) = Inl QhullError"
    by (simp add: plain_libs_def plain_Delaunay_few source_layout_def pixel_points_def
        editor_with_def two_points_def)
  have c: "source_canvas_image (editor_with corner_points) = Some img33"
    by (simp add: editor_with_def)
  have d: "\<exists>simplices simplex.
      Delaunay raising_affine (source_layout (editor_with corner_points) img33) = Inr simplices
      \<and> simplex \<in> set simplices
      \<and> body_raises raising_affine img33 (snd (shape2 img33)) (fst (shape2 img33))
           (source_layout (editor_with corner_points) img33)
           (inter_layout (editor_with corner_points) img33 (1 / 2)) simplex"
    by (rule exI [of _ "[[0, 1, 2]]"], rule exI [of _ "[0, 1, 2]"])
      (simp add: raising_affine_def plain_libs_def plain_Delaunay_3 source_layout_def
        inter_layout_def target_layout_def pixel_points_def editor_with_def corner_points_def
        body_raises_def np_index_def np_add_points_def np_scale_def shape2_def img33_def)
  from interpolate_image_exception_returns_source [OF a refl refl, of plain_libs QhullError "1 / 2"] b
  have 1: "interpolate_image plain_libs (editor_with two_points) (1 / 2) = Inr img33"
    by simp
  from interpolate_image_exception_returns_source
    [OF c refl refl, of raising_affine CvError "1 / 2" "\<lambda>i. False" 1 3 "[2]" "[]"] d
  have 2: "interpolate_image raising_affine (editor_with corner_points) (1 / 2) = Inr img33
    \<and> frames_loop raising_affine (editor_with corner_points) (\<lambda>i. False) 3 [1, 2] [] =
       frames_loop raising_affine (editor_with corner_points) (\<lambda>i. False) 3 [2] [img33]"
    by simp
  from 1 2 show ?thesis by simp
qed

section \<open>The frame sequence of \<^verbatim>\<open>save_gif\<close>\<close>

lemma interpolate_image_Inr:
  assumes "source_canvas_image s = Some img"
  shows "\<exists>m. interpolate_image L s t = Inr m"
  using assms by (auto simp: interpolate_image_Some split: sum.splits)

lemma frames_loop_run:
  assumes "source_canvas_image s = Some img"
    and "num_frames - 1 \<noteq> 0"
    and "\<And>i. i \<in> set todo \<Longrightarrow> \<not> canceled i"
  shows "frames_loop L s canceled num_frames todo images =
     Inr (Some (images @
       map (\<lambda>i. projr (interpolate_image L s (real i / real_of_int (num_frames - 1)))) todo))"
  using assms(3)
proof (induction todo arbitrary: images)
  case Nil
  then show ?case by simp
next
  case (Cons i rest)
  obtain m where m: "interpolate_image L s (real i / real_of_int (num_frames - 1)) = Inr m"
    using interpolate_image_Inr [OF assms(1)] by blast
  have "frames_loop L s canceled num_frames (i # rest) images =
      frames_loop L s canceled num_frames rest (images @ [m])"
    using Cons.prems assms(2) m by simp
  also have "\<dots> = Inr (Some ((images @ [m]) @
       map (\<lambda>i. projr (interpolate_image L s (real i / real_of_int (num_frames - 1)))) rest))"
    using Cons.IH Cons.prems by simp
  finally show ?case using m by simp
qed

lemma save_gif_forward:
  assumes "source_canvas_image s = Some img" and "2 \<le> n" and "\<And>i. i < n \<Longrightarrow> \<not> canceled i"
  shows "\<exists>frames.
     frames_loop L s canceled (int n) [0..<n] [] = Inr (Some frames)
     \<and> length frames = n
     \<and> (\<forall>i<n. interpolate_image L s (real i / (real n - 1)) = Inr (frames ! i))"
proof -
  let ?f = "\<lambda>i. projr (interpolate_image L s (real i / real_of_int (int n - 1)))"
  have n1: "int n - 1 \<noteq> 0" using assms(2) by simp
  have run: "frames_loop L s canceled (int n) [0..<n] [] = Inr (Some (map ?f [0..<n]))"
    using frames_loop_run [OF assms(1) n1, of "[0..<n]" canceled L "[]"] assms(3) by simp
  have "interpolate_image L s (real i / (real n - 1)) = Inr (map ?f [0..<n] ! i)" if "i < n" for i
  proof -
    obtain m where m: "interpolate_image L s (real i / (real n - 1)) = Inr m"
      using interpolate_image_Inr [OF assms(1)] by blast
    have "real_of_int (int n - 1) = real n - 1" by simp
    then show ?thesis using that m by simp
  qed
  then show ?thesis using run by auto
qed

text \<open>
  Claim C4. With an image loaded, at least two frames requested, the loop box unchecked
  and the progress dialog not cancelled, \<^verbatim>\<open>save_gif\<close> builds exactly \<open>n\<close> frames, in
  order, and frame \<open>i\<close> is what \<^verbatim>\<open>interpolate_image\<close> returns at \<open>i / (n - 1)\<close>. For
  five frames these are the parameters 0, 1/4, 1/2, 3/4 and 1.
\<close>

theorem save_gif_frames_evenly_spaced:
  assumes "source_canvas_image s = Some img" and "2 \<le> n" and "\<forall>i<n. \<not> canceled i"
  shows "\<exists>frames.
     save_gif_images L s canceled n False = Inr (Some frames)
     \<and> length frames = n
     \<and> (\<forall>i<n. interpolate_image L s (real i / (real n - 1)) = Inr (frames ! i))"
proof -
  obtain frames where f: "frames_loop L s canceled (int n) [0..<n] [] = Inr (Some frames)"
    "length frames = n"
    "\<forall>i<n. interpolate_image L s (real i / (real n - 1)) = Inr (frames ! i)"
    using save_gif_forward [OF assms(1,2), of canceled L] assms(3) by blast
  have "save_gif_images L s canceled n False = Inr (Some frames)"
    using assms(1) f(1) by (simp add: save_gif_images_def)
  then show ?thesis using f(2,3) by blast
qed

lemma upt5: "[0..<5] = [0, 1, 2, 3, 4]"
  by (simp add: upt_rec)

theorem save_gif_five_frames_witness:
  "\<exists>frames.
     save_gif_images plain_libs (editor_with moved_points) (\<lambda>i. False) 5 False = Inr (Some frames)
     \<and> length frames = 5
     \<and> map Inr frames =
         map (interpolate_image plain_libs (editor_with moved_points)) [0, 1 / 4, 1 / 2, 3 / 4, 1]"
proof -
  have a: "source_canvas_image (editor_with moved_points) = Some img33"
    by (simp add: editor_with_def)
  obtain frames where f:
    "save_gif_images plain_libs (editor_with moved_points) (\<lambda>i. False) 5 False = Inr (Some frames)"
    "length frames = 5"
    "\<forall>i<5. interpolate_image plain_libs (editor_with moved_points) (real i / (real 5 - 1))
        = Inr (frames ! i)"
    using save_gif_frames_evenly_spaced [OF a, of 5 "\<lambda>i. False" plain_libs] by auto
  have "map Inr frames = map (\<lambda>i. Inr (frames ! i)) [0..<5]"
    using f(2) by (intro nth_equalityI) simp_all
  also have "\<dots> = map (interpolate_image plain_libs (editor_with moved_points))
      [0, 1 / 4, 1 / 2, 3 / 4, 1]"
  proof -
    have g: "interpolate_image plain_libs (editor_with moved_points) (real i / 4)
        = Inr (frames ! i)" if "i < 5" for i
      using f(3) that by simp
    show ?thesis
      using g [of 0] g [of 1] g [of 2] g [of 3] g [of 4] by (simp add: upt5)
  qed
  finally show ?thesis using f(1,2) by blast
qed

text \<open>
  Claim C5. With the loop box checked the list is the \<open>n\<close> forward frames followed by
  the whole reversed forward list: \<open>2 * n\<close> frames, the last forward frame standing twice
  at the turn (positions \<open>n - 1\<close> and \<open>n\<close>). Four frames give eight.
\<close>

theorem save_gif_loop_appends_reverse:
  assumes "source_canvas_image s = Some img" and "2 \<le> n" and "\<forall>i<n. \<not> canceled i"
  shows "\<exists>forward.
     save_gif_images L s canceled n False = Inr (Some forward)
     \<and> save_gif_images L s canceled n True = Inr (Some (forward @ rev forward))
     \<and> length forward = n
     \<and> length (forward @ rev forward) = 2 * n
     \<and> (forward @ rev forward) ! n = (forward @ rev forward) ! (n - 1)"
proof -
  obtain frames where f: "frames_loop L s canceled (int n) [0..<n] [] = Inr (Some frames)"
    "length frames = n"
    using save_gif_forward [OF assms(1,2), of canceled L] assms(3) by blast
  have 1: "save_gif_images L s canceled n False = Inr (Some frames)"
    using assms(1) f(1) by (simp add: save_gif_images_def)
  have 2: "save_gif_images L s canceled n True = Inr (Some (frames @ rev frames))"
    using assms(1) f(1) by (simp add: save_gif_images_def)
  have "frames \<noteq> []" using f(2) assms(2) by auto
  then have "(frames @ rev frames) ! n = (frames @ rev frames) ! (n - 1)"
    using f(2) assms(2) by (simp add: nth_append rev_nth)
  then show ?thesis using 1 2 f(2) by auto
qed

theorem save_gif_loop_witness:
  "\<exists>forward.
     save_gif_images plain_libs (editor_with moved_points) (\<lambda>i. False) 4 False = Inr (Some forward)
     \<and> save_gif_images plain_libs (editor_with moved_points) (\<lambda>i. False) 4 True
         = Inr (Some (forward @ rev forward))
     \<and> length forward = 4
     \<and> length (forward @ rev forward) = 8
     \<and> (forward @ rev forward) ! 4 = (forward @ rev forward) ! 3"
proof -
  have a: "source_canvas_image (editor_with moved_points) = Some img33"
    by (simp add: editor_with_def)
  show ?thesis
    using save_gif_loop_appends_reverse [OF a, of 4 "\<lambda>i. False" plain_libs] by simp
qed


section \<open>The blended layout\<close>

lemma np_add_points_map:
  "np_add_points (map f ps) (map g ps) = map (\<lambda>p. (fst (f p) + fst (g p), snd (f p) + snd (g p))) ps"
  by (induction ps) (simp_all add: np_add_points_def)

lemma inter_layout_blended:
  "inter_layout s img t = map (blended_point (snd (shape2 img)) (fst (shape2 img)) t) (points s)"
  by (simp add: inter_layout_def source_layout_def target_layout_def pixel_points_def
      np_scale_def np_add_points_map blended_point_def comp_def)

text \<open>
  Claim C7. \<^verbatim>\<open>interpolate_image\<close> takes source and target points to pixel space
  (normalized coordinates times width and height of the source canvas image), blends
  them as (1 - t) * source + t * target for every correspondence, and runs the
  compositing loop with the blended points as destination points.
\<close>

theorem interpolate_image_blends_layout:
  assumes "source_canvas_image s = Some img" and "shape2 img = (height, width)"
  shows "interpolate_image L s t =
       (case interpolate_try L img width height (source_layout s img)
               (map (blended_point width height t) (points s)) of
          Inl e \<Rightarrow> Inr img
        | Inr morphed \<Rightarrow> Inr morphed)
     \<and> length (map (blended_point width height t) (points s)) = length (points s)
     \<and> (\<forall>n<length (points s).
          source_layout s img ! n =
            (fst (source (points s ! n)) * real width, snd (source (points s ! n)) * real height)
          \<and> target_layout s img ! n =
            (fst (target (points s ! n)) * real width, snd (target (points s ! n)) * real height)
          \<and> map (blended_point width height t) (points s) ! n =
            ((1 - t) * fst (source_layout s img ! n) + t * fst (target_layout s img ! n),
             (1 - t) * snd (source_layout s img ! n) + t * snd (target_layout s img ! n)))"
proof -
  have 1: "interpolate_image L s t =
       (case interpolate_try L img width height (source_layout s img)
               (map (blended_point width height t) (points s)) of
          Inl e \<Rightarrow> Inr img
        | Inr morphed \<Rightarrow> Inr morphed)"
    using interpolate_image_Some [OF assms(1), of L t] assms(2)
    by (simp add: inter_layout_blended)
  have 2: "\<forall>n<length (points s).
          source_layout s img ! n =
            (fst (source (points s ! n)) * real width, snd (source (points s ! n)) * real height)
          \<and> target_layout s img ! n =
            (fst (target (points s ! n)) * real width, snd (target (points s ! n)) * real height)
          \<and> map (blended_point width height t) (points s) ! n =
            ((1 - t) * fst (source_layout s img ! n) + t * fst (target_layout s img ! n),
             (1 - t) * snd (source_layout s img ! n) + t * snd (target_layout s img ! n))"
    using assms(2)
    by (simp add: source_layout_def target_layout_def pixel_points_def blended_point_def)
  from 1 2 show ?thesis by simp
qed

theorem interpolate_image_blends_witness:
  "interpolate_image plain_libs (editor_with moved_points) (1 / 2) =
       (case interpolate_try plain_libs img33 3 3 [(0, 0), (2, 0), (0, 2)]
               [(1 / 2, 0), (2, 0), (1 / 2, 2)] of
          Inl e \<Rightarrow> Inr img33
        | Inr morphed \<Rightarrow> Inr morphed)
   \<and> map (blended_point 3 3 (1 / 2)) moved_points = [(1 / 2, 0), (2, 0), (1 / 2, 2)]"
proof -
  have a: "source_canvas_image (editor_with moved_points) = Some img33"
    by (simp add: editor_with_def)
  have b: "shape2 img33 = (3, 3)"
    by (simp add: shape2_def img33_def)
  have c: "map (blended_point 3 3 (1 / 2)) moved_points = [(1 / 2, 0), (2, 0), (1 / 2, 2)]"
    by (simp add: blended_point_def moved_points_def)
  have d: "source_layout (editor_with moved_points) img33 = [(0, 0), (2, 0), (0, 2)]"
    by (simp add: source_layout_def b pixel_points_def editor_with_def moved_points_def)
  have e: "points (editor_with moved_points) = moved_points"
    by (simp add: editor_with_def)
  show ?thesis
    using interpolate_image_blends_layout [OF a b, of plain_libs "1 / 2"] c d e by simp
qed

section \<open>The initial value of \<^verbatim>\<open>morphed\<close>\<close>

lemma update_morph_Some:
  assumes "source_image s = Some img" and "3 \<le> length (points s)"
  shows "update_morph L s =
     (case update_try L img (snd (shape2 img)) (fst (shape2 img))
             (source_layout s img) (target_layout s img) of
        Inl e \<Rightarrow> s
      | Inr morphed \<Rightarrow> s\<lparr>target_canvas_image := Some morphed\<rparr>)"
  using assms
  by (simp add: update_morph_def source_layout_def target_layout_def Let_def split: prod.splits)

lemma interpolate_try_uncovered:
  assumes "interpolate_try L img w h sp dp = Inr out"
    and "Delaunay L sp = Inr simplices"
    and "y < length img" and "x < length (img ! y)"
    and "\<forall>simplex\<in>set simplices. \<not> covers L img dp simplex y x"
  shows "out ! y ! x = (0, 0, 0)"
proof -
  have loop: "simplices_loop L img w h sp dp (zeros_like img) simplices = Inr out"
    using assms(1,2) by (simp add: interpolate_try_def)
  have y: "y < length (zeros_like img)" and x: "x < length (zeros_like img ! y)"
    using assms(3,4) by (simp_all add: zeros_like_def)
  have "out ! y ! x = zeros_like img ! y ! x"
    using simplices_loop_uncovered [OF loop y x] assms(5) by simp
  then show ?thesis using nth_zeros_like [OF assms(3,4)] by simp
qed

lemma update_try_uncovered:
  assumes "update_try L img w h sp dp = Inr out"
    and "Delaunay L sp = Inr simplices"
    and "y < length img" and "x < length (img ! y)"
    and "\<forall>simplex\<in>set simplices. \<not> covers L img dp simplex y x"
  shows "out ! y ! x = img ! y ! x"
proof -
  have loop: "simplices_loop L img w h sp dp img simplices = Inr out"
    using assms(1,2) by (simp add: update_try_def)
  show ?thesis
    using simplices_loop_uncovered [OF loop assms(3,4)] assms(5) by simp
qed

lemma simplices_loop_covered:
  assumes "simplices_loop L img w h sp dp m simplices = Inr out"
    and "y < length m" and "x < length (m ! y)"
    and "\<exists>simplex\<in>set simplices. covers L img dp simplex y x"
  shows "\<exists>simplex\<in>set simplices. covers L img dp simplex y x
     \<and> (\<forall>m' out'. simplices_loop L img w h sp dp m' simplices = Inr out'
          \<longrightarrow> y < length m' \<longrightarrow> x < length (m' ! y)
          \<longrightarrow> out' ! y ! x = warped_pixel L img w h sp dp simplex y x)"
proof -
  from split_list_last_prop [OF assms(4)]
  obtain pre simplex post where sp: "simplices = pre @ simplex # post"
    and c: "covers L img dp simplex y x"
    and n: "\<forall>later\<in>set post. \<not> covers L img dp later y x"
    by blast
  have "out' ! y ! x = warped_pixel L img w h sp dp simplex y x"
    if "simplices_loop L img w h sp dp m' simplices = Inr out'"
      and "y < length m'" and "x < length (m' ! y)" for m' out'
    using simplices_loop_last_cover [OF that(1) [unfolded sp] that(2,3) c] n by simp
  then show ?thesis using sp c by auto
qed

lemma inter_layout_0: "inter_layout s img 0 = source_layout s img"
  by (simp add: inter_layout_blended source_layout_def pixel_points_def blended_point_def)

lemma inter_layout_1: "inter_layout s img 1 = target_layout s img"
  by (simp add: inter_layout_blended target_layout_def pixel_points_def blended_point_def)

text \<open>
  Claim C1 says that the output buffer starts as a copy of the source raster, so that a
  pixel that no destination mask covers keeps its source value. \<^verbatim>\<open>update_morph\<close> does
  that (line 331, \<^verbatim>\<open>self.source_image.copy()\<close>). \<^verbatim>\<open>interpolate_image\<close> starts
  from \<^verbatim>\<open>np.zeros_like\<close> (line 403) instead: whatever the libraries compute, when no
  step raises, a pixel outside every destination mask is the source pixel in the result
  of \<^verbatim>\<open>update_morph\<close> and black in the result of \<^verbatim>\<open>interpolate_image\<close>.
\<close>

theorem seed_decides_uncovered_pixels:
  assumes "source_image s = Some img" and "source_canvas_image s = Some img"
    and "3 \<le> length (points s)" and "shape2 img = (h, w)"
    and "Delaunay L (source_layout s img) = Inr simplices"
    and "update_try L img w h (source_layout s img) (target_layout s img) = Inr out_u"
    and "interpolate_try L img w h (source_layout s img) (inter_layout s img t) = Inr out_i"
    and "y < length img" and "x < length (img ! y)"
    and "\<forall>simplex\<in>set simplices. \<not> covers L img (target_layout s img) simplex y x"
    and "\<forall>simplex\<in>set simplices. \<not> covers L img (inter_layout s img t) simplex y x"
  shows "update_morph L s = s\<lparr>target_canvas_image := Some out_u\<rparr>
     \<and> out_u ! y ! x = img ! y ! x
     \<and> interpolate_image L s t = Inr out_i
     \<and> out_i ! y ! x = (0, 0, 0)"
proof -
  have 1: "update_morph L s = s\<lparr>target_canvas_image := Some out_u\<rparr>"
    using update_morph_Some [OF assms(1,3), of L] assms(4,6) by simp
  have 2: "out_u ! y ! x = img ! y ! x"
    using update_try_uncovered [OF assms(6,5,8,9,10)] .
  have 3: "interpolate_image L s t = Inr out_i"
    using interpolate_image_Some [OF assms(2), of L t] assms(4,7) by simp
  have 4: "out_i ! y ! x = (0, 0, 0)"
    using interpolate_try_uncovered [OF assms(7,5,8,9,11)] .
  from 1 2 3 4 show ?thesis by simp
qed


lemma shape2_img33: "shape2 img33 = (3, 3)"
  by (simp add: shape2_def img33_def)

lemma corner_layouts:
  "source_layout (editor_with corner_points) img33 = [(0, 0), (2, 0), (0, 2)]"
  "target_layout (editor_with corner_points) img33 = [(0, 0), (2, 0), (0, 2)]"
  "inter_layout (editor_with corner_points) img33 t = [(0, 0), (2, 0), (0, 2)]"
  by (simp_all add: inter_layout_blended source_layout_def target_layout_def shape2_img33
      pixel_points_def blended_point_def editor_with_def corner_points_def algebra_simps)

lemma corner_warp:
  "simplices_loop plain_libs img33 3 3 [(0, 0), (2, 0), (0, 2)] [(0, 0), (2, 0), (0, 2)]
     m [[0, 1, 2]] =
   loop_body plain_libs img33 3 3 [(0, 0), (2, 0), (0, 2)] [(0, 0), (2, 0), (0, 2)] m [0, 1, 2]"
  by (simp split: sum.splits)

lemma corner_update_try:
  "update_try plain_libs img33 3 3 [(0, 0), (2, 0), (0, 2)] [(0, 0), (2, 0), (0, 2)] = Inr img33"
  by (simp add: update_try_def plain_Delaunay_3 corner_warp loop_body_def plain_defs np_defs
      img33_def grey_def upt3 Let_def)

lemma corner_interpolate_try:
  "interpolate_try plain_libs img33 3 3 [(0, 0), (2, 0), (0, 2)] [(0, 0), (2, 0), (0, 2)] =
     Inr [[grey 11, grey 12, grey 13], [grey 21, grey 22, (0, 0, 0)], [grey 31, (0, 0, 0), (0, 0, 0)]]"
  by (simp add: interpolate_try_def plain_Delaunay_3 corner_warp loop_body_def plain_defs np_defs
      img33_def grey_def upt3 Let_def)

lemma corner_uncovered:
  "\<not> covers plain_libs img33 [(0, 0), (2, 0), (0, 2)] [0, 1, 2] 2 2"
  by (simp add: covers_def plain_defs np_index_def astype_int32_def shape2_img33)

theorem seed_decides_uncovered_witness:
  "update_morph plain_libs (editor_with corner_points) =
     (editor_with corner_points)\<lparr>target_canvas_image := Some img33\<rparr>
   \<and> img33 ! 2 ! 2 = grey 33
   \<and> interpolate_image plain_libs (editor_with corner_points) (1 / 2) =
       Inr [[grey 11, grey 12, grey 13], [grey 21, grey 22, (0, 0, 0)],
            [grey 31, (0, 0, 0), (0, 0, 0)]]
   \<and> [[grey 11, grey 12, grey 13], [grey 21, grey 22, (0, 0, 0)],
       [grey 31, (0, 0, 0), (0, 0, 0)]] ! 2 ! 2 = (0, 0, 0)"
proof -
  have a: "source_image (editor_with corner_points) = Some img33"
    "source_canvas_image (editor_with corner_points) = Some img33"
    "3 \<le> length (points (editor_with corner_points))"
    by (simp_all add: editor_with_def corner_points_def)
  have y: "2 < length img33" and x: "2 < length (img33 ! 2)" and px: "img33 ! 2 ! 2 = grey 33"
    by (simp_all add: img33_def)
  show ?thesis
    using seed_decides_uncovered_pixels [OF a shape2_img33, where L = plain_libs
        and simplices = "[[0, 1, 2]]" and t = "1 / 2" and y = 2 and x = 2 and out_u = img33
        and out_i = "[[grey 11, grey 12, grey 13], [grey 21, grey 22, (0, 0, 0)],
            [grey 31, (0, 0, 0), (0, 0, 0)]]"]
      corner_update_try corner_interpolate_try corner_uncovered y x px
    by (simp add: corner_layouts plain_Delaunay_3)
qed


text \<open>
  Claim C2 says that the frame at t = 0 reproduces the source raster. At t = 0 the
  destination points are the source points, but the frame starts from zeros: a pixel
  outside every mask of the source triangles is black in the frame, whatever its value
  in the source raster.
\<close>

theorem interpolate_at_0_uncovered_black:
  assumes "source_canvas_image s = Some img" and "shape2 img = (h, w)"
    and "Delaunay L (source_layout s img) = Inr simplices"
    and "interpolate_try L img w h (source_layout s img) (source_layout s img) = Inr out"
    and "y < length img" and "x < length (img ! y)"
    and "\<forall>simplex\<in>set simplices. \<not> covers L img (source_layout s img) simplex y x"
  shows "inter_layout s img 0 = source_layout s img
     \<and> interpolate_image L s 0 = Inr out
     \<and> out ! y ! x = (0, 0, 0)"
proof -
  have 1: "interpolate_image L s 0 = Inr out"
    using interpolate_image_Some [OF assms(1), of L 0] assms(2,4) by (simp add: inter_layout_0)
  have 2: "out ! y ! x = (0, 0, 0)"
    using interpolate_try_uncovered [OF assms(4,3,5,6,7)] .
  from 1 2 show ?thesis by (simp add: inter_layout_0)
qed

theorem interpolate_at_0_witness:
  "inter_layout (editor_with corner_points) img33 0 = source_layout (editor_with corner_points) img33
   \<and> interpolate_image plain_libs (editor_with corner_points) 0 =
       Inr [[grey 11, grey 12, grey 13], [grey 21, grey 22, (0, 0, 0)],
            [grey 31, (0, 0, 0), (0, 0, 0)]]
   \<and> img33 ! 2 ! 2 = grey 33 \<and> grey 33 \<noteq> (0, 0, 0)"
proof -
  have a: "source_canvas_image (editor_with corner_points) = Some img33"
    by (simp add: editor_with_def)
  have y: "2 < length img33" and x: "2 < length (img33 ! 2)" and px: "img33 ! 2 ! 2 = grey 33"
    by (simp_all add: img33_def)
  show ?thesis
    using interpolate_at_0_uncovered_black [OF a shape2_img33, where L = plain_libs
        and simplices = "[[0, 1, 2]]" and y = 2 and x = 2
        and out = "[[grey 11, grey 12, grey 13], [grey 21, grey 22, (0, 0, 0)],
            [grey 31, (0, 0, 0), (0, 0, 0)]]"]
      corner_interpolate_try corner_uncovered y x px
    by (simp add: corner_layouts plain_Delaunay_3 grey_def)
qed

text \<open>
  Claim C6 compares the frame at t = 1 with what \<^verbatim>\<open>update_morph\<close> composites for the
  target layout. At t = 1 the destination points are the target points, and both methods
  run the same loop over the same simplices. Where some destination mask covers a pixel
  the two outputs agree; where none does, \<^verbatim>\<open>update_morph\<close> has the source pixel and
  \<^verbatim>\<open>interpolate_image\<close> has black.
\<close>

theorem interpolate_at_1_versus_update_morph:
  assumes "source_image s = Some img" and "source_canvas_image s = Some img"
    and "3 \<le> length (points s)" and "shape2 img = (h, w)"
    and "Delaunay L (source_layout s img) = Inr simplices"
    and "update_try L img w h (source_layout s img) (target_layout s img) = Inr out_u"
    and "interpolate_try L img w h (source_layout s img) (target_layout s img) = Inr out_i"
    and "y < length img" and "x < length (img ! y)"
  shows "inter_layout s img 1 = target_layout s img
     \<and> interpolate_image L s 1 = Inr out_i
     \<and> update_morph L s = s\<lparr>target_canvas_image := Some out_u\<rparr>
     \<and> (if \<exists>simplex\<in>set simplices. covers L img (target_layout s img) simplex y x
         then out_i ! y ! x = out_u ! y ! x
         else out_i ! y ! x = (0, 0, 0) \<and> out_u ! y ! x = img ! y ! x)"
proof -
  let ?sp = "source_layout s img" and ?tp = "target_layout s img"
  have 1: "interpolate_image L s 1 = Inr out_i"
    using interpolate_image_Some [OF assms(2), of L 1] assms(4,7) by (simp add: inter_layout_1)
  have 2: "update_morph L s = s\<lparr>target_canvas_image := Some out_u\<rparr>"
    using update_morph_Some [OF assms(1,3), of L] assms(4,6) by simp
  have loop_u: "simplices_loop L img w h ?sp ?tp img simplices = Inr out_u"
    using assms(5,6) by (simp add: update_try_def)
  have loop_i: "simplices_loop L img w h ?sp ?tp (zeros_like img) simplices = Inr out_i"
    using assms(5,7) by (simp add: interpolate_try_def)
  have yz: "y < length (zeros_like img)" and xz: "x < length (zeros_like img ! y)"
    using assms(8,9) by (simp_all add: zeros_like_def)
  have 3: "out_i ! y ! x = out_u ! y ! x"
    if "\<exists>simplex\<in>set simplices. covers L img ?tp simplex y x"
  proof -
    from simplices_loop_covered [OF loop_u assms(8,9) that]
    obtain simplex where
      "\<forall>m' out'. simplices_loop L img w h ?sp ?tp m' simplices = Inr out'
          \<longrightarrow> y < length m' \<longrightarrow> x < length (m' ! y)
          \<longrightarrow> out' ! y ! x = warped_pixel L img w h ?sp ?tp simplex y x"
      by blast
    then have "out_u ! y ! x = warped_pixel L img w h ?sp ?tp simplex y x"
      and "out_i ! y ! x = warped_pixel L img w h ?sp ?tp simplex y x"
      using loop_u loop_i assms(8,9) yz xz by blast+
    then show ?thesis by simp
  qed
  have 4: "out_i ! y ! x = (0, 0, 0) \<and> out_u ! y ! x = img ! y ! x"
    if "\<not> (\<exists>simplex\<in>set simplices. covers L img ?tp simplex y x)"
    using interpolate_try_uncovered [OF assms(7,5,8,9)]
      update_try_uncovered [OF assms(6,5,8,9)] that by simp
  from 1 2 3 4 show ?thesis by (simp add: inter_layout_1)
qed

lemma moved_layouts:
  "source_layout (editor_with moved_points) img33 = [(0, 0), (2, 0), (0, 2)]"
  "target_layout (editor_with moved_points) img33 = [(1, 0), (2, 0), (1, 2)]"
  by (simp_all add: source_layout_def target_layout_def shape2_img33
      pixel_points_def editor_with_def moved_points_def)

lemma moved_warp:
  "simplices_loop plain_libs img33 3 3 [(0, 0), (2, 0), (0, 2)] [(1, 0), (2, 0), (1, 2)]
     m [[0, 1, 2]] =
   loop_body plain_libs img33 3 3 [(0, 0), (2, 0), (0, 2)] [(1, 0), (2, 0), (1, 2)] m [0, 1, 2]"
  by (simp split: sum.splits)

lemma moved_update_try:
  "update_try plain_libs img33 3 3 [(0, 0), (2, 0), (0, 2)] [(1, 0), (2, 0), (1, 2)] =
     Inr [[grey 11, grey 11, grey 13], [grey 21, grey 21, grey 23], [grey 31, grey 31, grey 33]]"
  by (simp add: update_try_def plain_Delaunay_3 moved_warp loop_body_def plain_defs np_defs
      img33_def grey_def upt3 Let_def)

lemma moved_interpolate_try:
  "interpolate_try plain_libs img33 3 3 [(0, 0), (2, 0), (0, 2)] [(1, 0), (2, 0), (1, 2)] =
     Inr [[(0, 0, 0), grey 11, grey 13], [(0, 0, 0), grey 21, (0, 0, 0)],
          [(0, 0, 0), grey 31, (0, 0, 0)]]"
  by (simp add: interpolate_try_def plain_Delaunay_3 moved_warp loop_body_def plain_defs np_defs
      img33_def grey_def upt3 Let_def)

lemma moved_uncovered:
  "\<not> covers plain_libs img33 [(1, 0), (2, 0), (1, 2)] [0, 1, 2] 2 2"
  by (simp add: covers_def plain_defs np_index_def astype_int32_def shape2_img33)

theorem interpolate_at_1_witness:
  "interpolate_image plain_libs (editor_with moved_points) 1 =
     Inr [[(0, 0, 0), grey 11, grey 13], [(0, 0, 0), grey 21, (0, 0, 0)],
          [(0, 0, 0), grey 31, (0, 0, 0)]]
   \<and> update_morph plain_libs (editor_with moved_points) =
     (editor_with moved_points)\<lparr>target_canvas_image :=
        Some [[grey 11, grey 11, grey 13], [grey 21, grey 21, grey 23],
              [grey 31, grey 31, grey 33]]\<rparr>
   \<and> [[(0, 0, 0), grey 11, grey 13], [(0, 0, 0), grey 21, (0, 0, 0)],
          [(0, 0, 0), grey 31, (0, 0, 0)]] ! 2 ! 2 = (0, 0, 0)
   \<and> [[grey 11, grey 11, grey 13], [grey 21, grey 21, grey 23],
              [grey 31, grey 31, grey 33]] ! 2 ! 2 = grey 33"
proof -
  have a: "source_image (editor_with moved_points) = Some img33"
    "source_canvas_image (editor_with moved_points) = Some img33"
    "3 \<le> length (points (editor_with moved_points))"
    by (simp_all add: editor_with_def moved_points_def)
  have y: "2 < length img33" and x: "2 < length (img33 ! 2)"
    by (simp_all add: img33_def)
  show ?thesis
    using interpolate_at_1_versus_update_morph [OF a shape2_img33, where L = plain_libs
        and simplices = "[[0, 1, 2]]" and y = 2 and x = 2
        and out_u = "[[grey 11, grey 11, grey 13], [grey 21, grey 21, grey 23],
              [grey 31, grey 31, grey 33]]"
        and out_i = "[[(0, 0, 0), grey 11, grey 13], [(0, 0, 0), grey 21, (0, 0, 0)],
          [(0, 0, 0), grey 31, (0, 0, 0)]]"]
      moved_update_try moved_interpolate_try moved_uncovered y x
    by (simp add: moved_layouts plain_Delaunay_3)
qed

text \<open>
  Claim C9 says that with fewer than three points nothing is triangulated and nothing is
  produced. \<^verbatim>\<open>update_morph\<close> returns at once (line 318) and leaves the editor as it
  is. \<^verbatim>\<open>interpolate_image\<close> has no such test: it calls \<open>Delaunay\<close> on the points it
  has and its result depends on the answer. When \<open>Delaunay\<close> raises, the source image is
  returned as the frame, and \<^verbatim>\<open>save_gif\<close> builds a sequence of \<open>n\<close> copies of it.
\<close>

theorem fewer_than_three_points:
  assumes "length (points s) < 3" and "source_canvas_image s = Some img"
    and "shape2 img = (h, w)"
  shows "update_morph L s = s
     \<and> interpolate_image L s t =
         (case Delaunay L (source_layout s img) of
            Inl e \<Rightarrow> Inr img
          | Inr simplices \<Rightarrow>
              (case simplices_loop L img w h (source_layout s img) (inter_layout s img t)
                      (zeros_like img) simplices of
                 Inl e \<Rightarrow> Inr img
               | Inr morphed \<Rightarrow> Inr morphed))
     \<and> ((\<exists>e. Delaunay L (source_layout s img) = Inl e) \<longrightarrow>
          interpolate_image L s t = Inr img)
     \<and> ((\<exists>e. Delaunay L (source_layout s img) = Inl e) \<and> 2 \<le> n \<and> (\<forall>i<n. \<not> canceled i) \<longrightarrow>
          save_gif_images L s canceled n False = Inr (Some (replicate n img)))"
proof -
  have 1: "update_morph L s = s"
    using assms(1) by (simp add: update_morph_def split: option.splits)
  have 2: "interpolate_image L s t =
         (case Delaunay L (source_layout s img) of
            Inl e \<Rightarrow> Inr img
          | Inr simplices \<Rightarrow>
              (case simplices_loop L img w h (source_layout s img) (inter_layout s img t)
                      (zeros_like img) simplices of
                 Inl e \<Rightarrow> Inr img
               | Inr morphed \<Rightarrow> Inr morphed))" for t
    using interpolate_image_Some [OF assms(2), of L t] assms(3)
    by (simp add: interpolate_try_def split: sum.splits)
  have 3: "interpolate_image L s t = Inr img" if "\<exists>e. Delaunay L (source_layout s img) = Inl e" for t
    using 2 [of t] that by auto
  have 4: "save_gif_images L s canceled n False = Inr (Some (replicate n img))"
    if d: "\<exists>e. Delaunay L (source_layout s img) = Inl e" and n: "2 \<le> n"
      and c: "\<forall>i<n. \<not> canceled i"
  proof -
    obtain frames where f: "frames_loop L s canceled (int n) [0..<n] [] = Inr (Some frames)"
      "length frames = n"
      "\<forall>i<n. interpolate_image L s (real i / (real n - 1)) = Inr (frames ! i)"
      using save_gif_forward [OF assms(2) n, of canceled L] c by blast
    have "frames = replicate n img"
      using f(2,3) 3 [OF d] by (intro nth_equalityI) auto
    then show ?thesis using f(1) assms(2) by (simp add: save_gif_images_def)
  qed
  from 1 2 [of t] 3 [of t] 4 show ?thesis by blast
qed

theorem fewer_than_three_points_witness:
  "update_morph plain_libs (editor_with two_points) = editor_with two_points
   \<and> Delaunay plain_libs (source_layout (editor_with two_points) img33) = Inl QhullError
   \<and> interpolate_image plain_libs (editor_with two_points) (1 / 2) = Inr img33
   \<and> save_gif_images plain_libs (editor_with two_points) (\<lambda>i. False) 3 False =
       Inr (Some [img33, img33, img33])
   \<and> interpolate_image empty_Delaunay (editor_with two_points) (1 / 2) = Inr (zeros_like img33)"
proof -
  have a: "length (points (editor_with two_points)) < 3"
    "source_canvas_image (editor_with two_points) = Some img33"
    by (simp_all add: editor_with_def two_points_def)
  have b: "Delaunay plain_libs (source_layout (editor_with two_points) img33) = Inl QhullError"
    by (simp add: plain_libs_def plain_Delaunay_few source_layout_def pixel_points_def
        editor_with_def two_points_def)
  have c: "Delaunay empty_Delaunay pts = Inr []" for pts
    by (simp add: empty_Delaunay_def)
  have d: "replicate 3 img33 = [img33, img33, img33]"
    by (simp add: numeral_3_eq_3)
  from fewer_than_three_points [OF a shape2_img33, of plain_libs "1 / 2" 3 "\<lambda>i. False"] b d
  have 1: "update_morph plain_libs (editor_with two_points) = editor_with two_points
   \<and> interpolate_image plain_libs (editor_with two_points) (1 / 2) = Inr img33
   \<and> save_gif_images plain_libs (editor_with two_points) (\<lambda>i. False) 3 False =
       Inr (Some [img33, img33, img33])"
    by simp
  from fewer_than_three_points [OF a shape2_img33, of empty_Delaunay "1 / 2" 3 "\<lambda>i. False"] c
  have 2: "interpolate_image empty_Delaunay (editor_with two_points) (1 / 2) = Inr (zeros_like img33)"
    by simp
  from 1 2 b show ?thesis by simp
qed

section \<open>A triangle with collinear source points\<close>

lemma update_try_raises:
  assumes "Delaunay L sp = Inr simplices" and "simplex \<in> set simplices"
    and "body_raises L img w h sp dp simplex"
  shows "\<exists>e. update_try L img w h sp dp = Inl e"
  using assms simplices_loop_raises [of simplex simplices L img w h sp dp img]
  by (auto simp: update_try_def)

text \<open>
  Claim C3 is about a triangulation that holds a simplex with collinear source points. It
  is not settled here: whether \<open>Delaunay\<close> ever returns such a simplex is a matter of
  the library. Two facts hold for every library. First, the loop has no recovery per
  triangle and no test for collinear points: if an indexing or library call raises for a
  simplex, the whole composite is given up, and if no step raises, a pixel covered by the
  mask of a simplex and by no later mask is the pixel of that simplex's warped image.
  Second, on a triangulation without a simplex of collinear source points the loop and
  the compositor of the specification compute the same. The executable instance
  \<open>plain_Delaunay\<close> never returns a simplex of collinear points.
\<close>

lemma loop_treats_all_simplices_alike:
  assumes "source_image s = Some img" and "source_canvas_image s = Some img"
    and "3 \<le> length (points s)" and "shape2 img = (h, w)"
    and "Delaunay L (source_layout s img) = Inr simplices"
    and "simplices = pre @ simplex # post"
    and "y < length img" and "x < length (img ! y)"
  shows "(body_raises L img w h (source_layout s img) (target_layout s img) simplex \<longrightarrow>
            update_morph L s = s)
     \<and> (body_raises L img w h (source_layout s img) (inter_layout s img t) simplex \<longrightarrow>
            interpolate_image L s t = Inr img)
     \<and> (update_try L img w h (source_layout s img) (target_layout s img) = Inr out_u
          \<and> covers L img (target_layout s img) simplex y x
          \<and> (\<forall>later\<in>set post. \<not> covers L img (target_layout s img) later y x) \<longrightarrow>
            update_morph L s = s\<lparr>target_canvas_image := Some out_u\<rparr>
            \<and> out_u ! y ! x =
                warped_pixel L img w h (source_layout s img) (target_layout s img) simplex y x)
     \<and> (interpolate_try L img w h (source_layout s img) (inter_layout s img t) = Inr out_i
          \<and> covers L img (inter_layout s img t) simplex y x
          \<and> (\<forall>later\<in>set post. \<not> covers L img (inter_layout s img t) later y x) \<longrightarrow>
            interpolate_image L s t = Inr out_i
            \<and> out_i ! y ! x =
                warped_pixel L img w h (source_layout s img) (inter_layout s img t) simplex y x)"
proof -
  let ?sp = "source_layout s img" and ?tp = "target_layout s img" and ?ip = "inter_layout s img t"
  have mem: "simplex \<in> set simplices" using assms(6) by simp
  have 1: "update_morph L s = s" if "body_raises L img w h ?sp ?tp simplex"
    using update_try_raises [OF assms(5) mem that] update_morph_Some [OF assms(1,3), of L] assms(4)
    by auto
  have 2: "interpolate_image L s t = Inr img" if "body_raises L img w h ?sp ?ip simplex"
  proof -
    have "\<exists>e'. interpolate_try L img w h ?sp ?ip = Inl e'"
      using interpolate_try_raises [of L ?sp _ img w h ?ip] assms(5) mem that by blast
    then show ?thesis using interpolate_image_Some [OF assms(2), of L t] assms(4) by auto
  qed
  have 3: "update_morph L s = s\<lparr>target_canvas_image := Some out_u\<rparr>
      \<and> out_u ! y ! x = warped_pixel L img w h ?sp ?tp simplex y x"
    if u: "update_try L img w h ?sp ?tp = Inr out_u" and c: "covers L img ?tp simplex y x"
      and n: "\<forall>later\<in>set post. \<not> covers L img ?tp later y x"
  proof -
    have loop: "simplices_loop L img w h ?sp ?tp img (pre @ simplex # post) = Inr out_u"
      using u assms(5,6) by (simp add: update_try_def)
    have "out_u ! y ! x = warped_pixel L img w h ?sp ?tp simplex y x"
      using simplices_loop_last_cover [OF loop assms(7,8) c] n by simp
    then show ?thesis using update_morph_Some [OF assms(1,3), of L] assms(4) u by simp
  qed
  have 4: "interpolate_image L s t = Inr out_i
      \<and> out_i ! y ! x = warped_pixel L img w h ?sp ?ip simplex y x"
    if i: "interpolate_try L img w h ?sp ?ip = Inr out_i" and c: "covers L img ?ip simplex y x"
      and n: "\<forall>later\<in>set post. \<not> covers L img ?ip later y x"
  proof -
    have loop: "simplices_loop L img w h ?sp ?ip (zeros_like img) (pre @ simplex # post) = Inr out_i"
      using i assms(5,6) by (simp add: interpolate_try_def)
    have yz: "y < length (zeros_like img)" and xz: "x < length (zeros_like img ! y)"
      using assms(7,8) by (simp_all add: zeros_like_def)
    have "out_i ! y ! x = warped_pixel L img w h ?sp ?ip simplex y x"
      using simplices_loop_last_cover [OF loop yz xz c] n by simp
    then show ?thesis using interpolate_image_Some [OF assms(2), of L t] assms(4) i by simp
  qed
  from 1 2 3 4 show ?thesis by blast
qed

lemma spec_composite_agrees:
  assumes "list_all
      (\<lambda>simplex. case np_index sp simplex of Inl e \<Rightarrow> True | Inr src_tri \<Rightarrow> \<not> collinear src_tri)
      simplices"
  shows "spec_composite L img w h sp dp m simplices = simplices_loop L img w h sp dp m simplices"
  using assms
proof (induction simplices arbitrary: m)
  case Nil
  then show ?case by simp
next
  case (Cons simplex rest)
  have rest: "spec_composite L img w h sp dp m' rest = simplices_loop L img w h sp dp m' rest"
    for m'
    using Cons.IH [of m'] Cons.prems by simp
  show ?case
  proof (cases "np_index sp simplex")
    case (Inl e)
    then show ?thesis by (simp add: loop_body_def)
  next
    case (Inr src_tri)
    then have "\<not> collinear src_tri" using Cons.prems by simp
    then show ?thesis using Inr rest by (simp split: sum.splits)
  qed
qed

lemma plain_Delaunay_no_collinear:
  assumes "plain_Delaunay pts = Inr simplices" and "simplex \<in> set simplices"
    and "np_index pts simplex = Inr tri"
  shows "\<not> collinear tri"
proof -
  have "simplices = filter (plain_is_Delaunay pts) (plain_triples (length pts))"
    using assms(1) by (simp add: plain_Delaunay_def split: list.splits)
  then have d: "plain_is_Delaunay pts simplex" using assms(2) by simp
  then obtain i j k where s: "simplex = [i, j, k]"
    and o: "plain_orient (pts ! i) (pts ! j) (pts ! k) \<noteq> 0"
    by (auto simp: plain_is_Delaunay_def split: list.splits)
  have "tri = [pts ! i, pts ! j, pts ! k]"
    using assms(3) s by (simp add: np_index_def split: if_splits)
  then show ?thesis
    using o by (auto simp: collinear_def plain_orient_def split: prod.splits)
qed

section \<open>Saving and loading a template\<close>

lemma unpack_row_written:
  assumes "reads_back_point P eps point"
  shows "\<exists>point'. unpack_row P (writerow_fields P point) = Inr point' \<and> close_points eps point point'"
  using assms
  by (auto simp: reads_back_point_def reads_back_def unpack_row_def writerow_fields_def
      close_points_def split: sum.splits)

lemma rows_loop_written:
  assumes "list_all (reads_back_point P eps) pts"
  shows "\<exists>pts'. rows_loop P (map (writerow_fields P) pts) acc = (None, acc @ pts')
     \<and> list_all2 (close_points eps) pts pts'"
  using assms
proof (induction pts arbitrary: acc)
  case Nil
  then show ?case by simp
next
  case (Cons point pts)
  have "reads_back_point P eps point" using Cons.prems by simp
  from unpack_row_written [OF this]
  obtain point' where p: "unpack_row P (writerow_fields P point) = Inr point'"
    "close_points eps point point'"
    by blast
  from Cons.IH [of "acc @ [point']"] Cons.prems obtain pts' where
    r: "rows_loop P (map (writerow_fields P) pts) (acc @ [point']) = (None, (acc @ [point']) @ pts')"
    "list_all2 (close_points eps) pts pts'"
    by auto
  have "rows_loop P (map (writerow_fields P) (point # pts)) acc = (None, acc @ point' # pts')"
    using p(1) r(1) by simp
  moreover have "list_all2 (close_points eps) (point # pts) (point' # pts')"
    using p(2) r(2) by simp
  ultimately show ?case by blast
qed

text \<open>
  Claim C8. Writing the N correspondences of an editor to a template file and reading
  the file back gives N correspondences, in the same order, each coordinate within the
  precision of the float formatting. The file holds one record per correspondence, with
  the fields source x, source y, target x, target y and no header. The assumptions are
  those on the libraries: the CSV reader returns the rows the CSV writer wrote, and
  every coordinate reads back within \<open>eps\<close>.
\<close>

theorem template_round_trip:
  assumes "file_name \<noteq> []"
    and "csv_reader P (concat (map (csv_writerow P) (map (writerow_fields P) (points s))))
           = map (writerow_fields P) (points s)"
    and "list_all (reads_back_point P eps) (points s)"
  shows "\<exists>pts'.
     save_template P s file_name fs file_name =
       Some (concat (map (\<lambda>point. csv_writerow P
               [float_str P (fst (source point)), float_str P (snd (source point)),
                float_str P (fst (target point)), float_str P (snd (target point))]) (points s)))
     \<and> load_template P s' file_name (save_template P s file_name fs) = (None, s'\<lparr>points := pts'\<rparr>)
     \<and> length pts' = length (points s)
     \<and> (\<forall>n<length (points s). close_points eps (points s ! n) (pts' ! n))"
proof -
  from rows_loop_written [OF assms(3), of "[]"] obtain pts' where
    r: "rows_loop P (map (writerow_fields P) (points s)) [] = (None, pts')"
    and c: "list_all2 (close_points eps) (points s) pts'"
    by auto
  have w: "save_template P s file_name fs file_name =
       Some (concat (map (csv_writerow P) (map (writerow_fields P) (points s))))"
    using assms(1) by (simp add: save_template_def comp_def)
  have l: "load_template P s' file_name (save_template P s file_name fs) = (None, s'\<lparr>points := pts'\<rparr>)"
    using assms(1,2) w r by (simp add: load_template_def)
  have "length pts' = length (points s)"
    and "\<forall>n<length (points s). close_points eps (points s ! n) (pts' ! n)"
    using c by (simp_all add: list_all2_conv_all_nth)
  then show ?thesis using w l by (auto simp: writerow_fields_def comp_def)
qed


lemma close_points_0: "close_points 0 p q \<Longrightarrow> q = p"
  by (cases p; cases q) (auto simp: close_points_def)

lemma template_text:
  "concat (map (csv_writerow plain_pylibs) (map (writerow_fields plain_pylibs) template_points)) =
     ''0.0,0.0,0.5,1.0'' @ [CHR 0x0D, CHR 0x0A] @ ''1.0,0.5,0.25,0.0'' @ [CHR 0x0D, CHR 0x0A]"
  by (simp add: plain_pylibs_def plain_csv_writerow_def writerow_fields_def plain_float_str_def
      plain_floats_def template_points_def)

lemma template_rows:
  "map (writerow_fields plain_pylibs) template_points =
     [[''0.0'', ''0.0'', ''0.5'', ''1.0''], [''1.0'', ''0.5'', ''0.25'', ''0.0'']]"
  by (simp add: plain_pylibs_def writerow_fields_def plain_float_str_def
      plain_floats_def template_points_def)

lemma template_read:
  "csv_reader plain_pylibs
     (''0.0,0.0,0.5,1.0'' @ [CHR 0x0D, CHR 0x0A] @ ''1.0,0.5,0.25,0.0'' @ [CHR 0x0D, CHR 0x0A]) =
     [[''0.0'', ''0.0'', ''0.5'', ''1.0''], [''1.0'', ''0.5'', ''0.25'', ''0.0'']]"
  by (simp add: plain_pylibs_def plain_csv_reader_def)

lemma template_reads_back:
  "list_all (reads_back_point plain_pylibs 0) template_points"
  by (simp add: reads_back_point_def reads_back_def plain_pylibs_def plain_float_str_def
      plain_float_of_str_def plain_floats_def template_points_def)

theorem template_round_trip_witness:
  "save_template plain_pylibs (editor_with template_points) ''t.csv'' Map.empty ''t.csv'' =
     Some (''0.0,0.0,0.5,1.0'' @ [CHR 0x0D, CHR 0x0A] @ ''1.0,0.5,0.25,0.0'' @ [CHR 0x0D, CHR 0x0A])
   \<and> load_template plain_pylibs (editor_with []) ''t.csv''
        (save_template plain_pylibs (editor_with template_points) ''t.csv'' Map.empty)
      = (None, editor_with template_points)"
proof -
  have pts: "points (editor_with template_points) = template_points"
    by (simp add: editor_with_def)
  have n: "''t.csv'' \<noteq> []" by simp
  have r: "csv_reader plain_pylibs (concat (map (csv_writerow plain_pylibs)
      (map (writerow_fields plain_pylibs) (points (editor_with template_points)))))
      = map (writerow_fields plain_pylibs) (points (editor_with template_points))"
    unfolding pts template_text template_read by (simp only: template_rows)
  have b: "list_all (reads_back_point plain_pylibs 0) (points (editor_with template_points))"
    unfolding pts by (rule template_reads_back)
  from template_round_trip [OF n r b, of Map.empty "editor_with []"]
  obtain pts' where
    w: "save_template plain_pylibs (editor_with template_points) ''t.csv'' Map.empty ''t.csv'' =
       Some (concat (map (\<lambda>point. csv_writerow plain_pylibs
               [float_str plain_pylibs (fst (source point)),
                float_str plain_pylibs (snd (source point)),
                float_str plain_pylibs (fst (target point)),
                float_str plain_pylibs (snd (target point))])
            (points (editor_with template_points))))"
    and l: "load_template plain_pylibs (editor_with []) ''t.csv''
        (save_template plain_pylibs (editor_with template_points) ''t.csv'' Map.empty)
      = (None, (editor_with [])\<lparr>points := pts'\<rparr>)"
    and len: "length pts' = length (points (editor_with template_points))"
    and c: "\<forall>n<length (points (editor_with template_points)).
        close_points 0 (points (editor_with template_points) ! n) (pts' ! n)"
    by blast
  have "pts' = template_points"
    using len c close_points_0 unfolding pts by (intro nth_equalityI) auto
  then have 2: "load_template plain_pylibs (editor_with []) ''t.csv''
        (save_template plain_pylibs (editor_with template_points) ''t.csv'' Map.empty)
      = (None, editor_with template_points)"
    using l by (simp add: editor_with_def)
  have 1: "save_template plain_pylibs (editor_with template_points) ''t.csv'' Map.empty ''t.csv'' =
     Some (''0.0,0.0,0.5,1.0'' @ [CHR 0x0D, CHR 0x0A] @ ''1.0,0.5,0.25,0.0'' @ [CHR 0x0D, CHR 0x0A])"
    using w template_text unfolding pts by (simp add: writerow_fields_def comp_def)
  from 1 2 show ?thesis by simp
qed

end
